theory Spec2Isabelle
  imports Complex_Main "HOL-Library.Char_ord" "HOL-Library.List_Lexorder" "HOL-Library.Sublist"
    "HOL-Library.AList"
begin

section \<open>Python values used by \<open>ren3_processor.py\<close>\<close>

text \<open>
  The exceptions that the modelled code can raise.  \<open>RequestException\<close> is
  \<open>requests.exceptions.RequestException\<close>; \<open>PlainException\<close> is a bare
  \<open>Exception(...)\<close> raised by the processor itself; \<open>PermissionError\<close> is the
  \<open>OSError\<close> of a denied access, \<open>OSError\<close> any other error of the operating system;
  \<open>IllegalCharacterError\<close> is the exception of that name of \<open>openpyxl\<close>.  All of
  them are subclasses of \<open>Exception\<close>, so every \<open>except Exception\<close> handler catches
  each of them.  \<open>MissingConfig names\<close> is the \<open>ValueError\<close> that \<open>Ren3Config\<close> raises
  with the message \<open>Missing required config: ...\<close>, kept apart so that the names are
  visible.
\<close>

datatype py_error =
    ValueError
  | TypeError
  | AttributeError
  | KeyError
  | OverflowError
  | OSError
  | PermissionError
  | RequestException
  | IllegalCharacterError
  | PlainException
  | MissingConfig "string list"

subsection \<open>\<open>range(start, stop, step)\<close> and slicing\<close>

text \<open>
  \<open>range\<close> with a positive step counts up while the index is below \<open>stop\<close>, with a
  negative step it counts down while the index is above \<open>stop\<close>, and a zero step raises
  \<open>ValueError\<close>.
\<close>

function py_range_up :: "int \<Rightarrow> int \<Rightarrow> int \<Rightarrow> int list" where
  "py_range_up i stop step =
     (if 0 < step \<and> i < stop then i # py_range_up (i + step) stop step else [])"
  by pat_completeness auto
termination
  by (relation "measure (\<lambda>(i, stop, step). nat (stop - i))") auto

function py_range_down :: "int \<Rightarrow> int \<Rightarrow> int \<Rightarrow> int list" where
  "py_range_down i stop step =
     (if step < 0 \<and> stop < i then i # py_range_down (i + step) stop step else [])"
  by pat_completeness auto
termination
  by (relation "measure (\<lambda>(i, stop, step). nat (i - stop))") auto

definition py_range :: "int \<Rightarrow> int \<Rightarrow> int \<Rightarrow> py_error + int list" where
  "py_range start stop step =
     (if step = 0 then Inl ValueError
      else if 0 < step then Inr (py_range_up start stop step)
      else Inr (py_range_down start stop step))"

text \<open>
  \<open>xs[i:j]\<close>: a negative bound counts from the end, and both bounds are clamped to
  \<open>0 .. len(xs)\<close>; the slice is empty when the bounds cross.
\<close>

definition slice_bound :: "nat \<Rightarrow> int \<Rightarrow> nat" where
  "slice_bound n i = (if i < 0 then nat (max (i + int n) 0) else min (nat i) n)"

definition py_slice :: "'a list \<Rightarrow> int \<Rightarrow> int \<Rightarrow> 'a list" where
  "py_slice xs i j =
     (let lo = slice_bound (length xs) i; hi = slice_bound (length xs) j
      in take (hi - lo) (drop lo xs))"

subsection \<open>\<open>int(s)\<close> on a string\<close>

text \<open>
  \<open>int\<close> strips surrounding whitespace, accepts one optional sign and then decimal
  digits, where single underscores may stand between digits; anything else raises
  \<open>ValueError\<close>.  So does a string with more than \<open>max_str_digits\<close> digits (the
  interpreter's default limit on the conversion, which the program does not change);
  the sign, the underscores and the whitespace do not count.  Strings are ASCII here.
\<close>

definition max_str_digits :: nat where
  "max_str_digits = 4300"

definition is_digit :: "char \<Rightarrow> bool" where
  "is_digit c = (CHR ''0'' \<le> c \<and> c \<le> CHR ''9'')"

definition digit_val :: "char \<Rightarrow> nat" where
  "digit_val c = of_char c - of_char CHR ''0''"

definition is_space :: "char \<Rightarrow> bool" where
  "is_space c = (c \<in> set [CHR '' '', CHR 0x09, CHR 0x0A, CHR 0x0B, CHR 0x0C, CHR 0x0D])"

definition strip :: "string \<Rightarrow> string" where
  "strip s = rev (dropWhile is_space (rev (dropWhile is_space s)))"

fun parse_digits :: "string \<Rightarrow> nat \<Rightarrow> nat option" where
  "parse_digits [] acc = Some acc"
| "parse_digits (c # cs) acc =
     (if is_digit c then parse_digits cs (acc * 10 + digit_val c)
      else if c = CHR ''_'' \<and> cs \<noteq> [] \<and> is_digit (hd cs) then parse_digits cs acc
      else None)"

definition parse_nat :: "string \<Rightarrow> nat option" where
  "parse_nat s = (if s \<noteq> [] \<and> is_digit (hd s) then parse_digits s 0 else None)"

definition py_int :: "string \<Rightarrow> py_error + int" where
  "py_int s =
     (case strip s of
        [] \<Rightarrow> Inl ValueError
      | c # cs \<Rightarrow>
          (if max_str_digits < length (filter is_digit (c # cs)) then Inl ValueError
           else if c = CHR ''-'' then
             (case parse_nat cs of None \<Rightarrow> Inl ValueError | Some n \<Rightarrow> Inr (- int n))
           else if c = CHR ''+'' then
             (case parse_nat cs of None \<Rightarrow> Inl ValueError | Some n \<Rightarrow> Inr (int n))
           else
             (case parse_nat (c # cs) of None \<Rightarrow> Inl ValueError | Some n \<Rightarrow> Inr (int n))))"

section \<open>JSON values\<close>

text \<open>
  What \<open>response.json()\<close> returns, and what the request payloads are built from.  Python's
  \<open>None\<close> is \<open>JNull\<close>, a \<open>dict\<close> is \<open>JObj\<close> with its items in order (keys distinct).
  Numbers are integers; floating-point numbers are not modelled.
\<close>

datatype json =
    JNull
  | JBool bool
  | JInt int
  | JStr string
  | JList "json list"
  | JObj "(string \<times> json) list"

text \<open>\<open>d.get(k)\<close>: only a \<open>dict\<close> has the method; a missing key gives \<open>None\<close>.\<close>

definition dict_get :: "json \<Rightarrow> string \<Rightarrow> py_error + json option" where
  "dict_get d k = (case d of JObj kvs \<Rightarrow> Inr (map_of kvs k) | _ \<Rightarrow> Inl AttributeError)"

definition dict_get_default :: "json \<Rightarrow> string \<Rightarrow> json \<Rightarrow> py_error + json" where
  "dict_get_default d k dflt =
     (case dict_get d k of Inl e \<Rightarrow> Inl e | Inr None \<Rightarrow> Inr dflt | Inr (Some v) \<Rightarrow> Inr v)"

text \<open>
  \<open>d[k]\<close> with a string key: \<open>KeyError\<close> for a \<open>dict\<close> without the key, \<open>TypeError\<close>
  for every other value.
\<close>

definition py_getitem :: "json \<Rightarrow> string \<Rightarrow> py_error + json" where
  "py_getitem d k =
     (case d of
        JObj kvs \<Rightarrow> (case map_of kvs k of None \<Rightarrow> Inl KeyError | Some v \<Rightarrow> Inr v)
      | _ \<Rightarrow> Inl TypeError)"

text \<open>Truth value of \<open>d.get(k)\<close> in a condition; \<open>None\<close> stands for the missing key.\<close>

fun truthy :: "json \<Rightarrow> bool" where
  "truthy JNull = False"
| "truthy (JBool b) = b"
| "truthy (JInt n) = (n \<noteq> 0)"
| "truthy (JStr t) = (t \<noteq> [])"
| "truthy (JList xs) = (xs \<noteq> [])"
| "truthy (JObj kvs) = (kvs \<noteq> [])"

definition truthy_opt :: "json option \<Rightarrow> bool" where
  "truthy_opt v = (case v of None \<Rightarrow> False | Some j \<Rightarrow> truthy j)"

text \<open>
  \<open>for x in v\<close>: the elements of a list, the characters of a string, the keys of a
  \<open>dict\<close>; \<open>TypeError\<close> for \<open>None\<close>, a Boolean or a number.
\<close>

definition py_iter :: "json \<Rightarrow> py_error + json list" where
  "py_iter v =
     (case v of
        JList xs \<Rightarrow> Inr xs
      | JStr t \<Rightarrow> Inr (map (\<lambda>ch. JStr [ch]) t)
      | JObj kvs \<Rightarrow> Inr (map (\<lambda>(k, _). JStr k) kvs)
      | _ \<Rightarrow> Inl TypeError)"

text \<open>\<open>len(v)\<close>, as the log messages evaluate it.\<close>

definition py_len :: "json \<Rightarrow> py_error + nat" where
  "py_len v =
     (case v of
        JList xs \<Rightarrow> Inr (length xs)
      | JStr t \<Rightarrow> Inr (length t)
      | JObj kvs \<Rightarrow> Inr (length kvs)
      | _ \<Rightarrow> Inl TypeError)"

definition opt_str :: "string option \<Rightarrow> json" where
  "opt_str v = (case v of None \<Rightarrow> JNull | Some t \<Rightarrow> JStr t)"

subsection \<open>Strings\<close>

text \<open>\<open>s.lower()\<close> on ASCII, and \<open>pat in s\<close>.\<close>

definition lower_char :: "char \<Rightarrow> char" where
  "lower_char ch =
     (if CHR ''A'' \<le> ch \<and> ch \<le> CHR ''Z'' then char_of (of_char ch + (32::nat)) else ch)"

definition lower :: "string \<Rightarrow> string" where
  "lower t = map lower_char t"

fun contains :: "string \<Rightarrow> string \<Rightarrow> bool" where
  "contains pat [] = (pat = [])"
| "contains pat (ch # t) = (prefix pat (ch # t) \<or> contains pat t)"

text \<open>\<open>str(n)\<close> for a natural number, and the format \<open>{n:03d}\<close>.\<close>

fun str_nat :: "nat \<Rightarrow> string" where
  "str_nat n =
     (if n < 10 then [char_of (48 + n)]
      else str_nat (n div 10) @ [char_of (48 + n mod 10)])"

definition fmt_03d :: "nat \<Rightarrow> string" where
  "fmt_03d n = replicate (3 - length (str_nat n)) CHR ''0'' @ str_nat n"

section \<open>Paths and the file system\<close>

text \<open>
  A \<open>pathlib\<close> path is its list of parts; an absolute path starts with the part \<open>/\<close>.
  Paths compare as their lists of parts do.  \<open>Path(s)\<close> splits at \<open>/\<close> and drops empty
  parts and \<open>.\<close> parts.  Paths are taken literally: \<open>..\<close> parts, symbolic links and the
  aliasing of relative and absolute paths are not modelled.
\<close>

type_synonym path = "string list"

fun split_slash :: "string \<Rightarrow> string list" where
  "split_slash [] = [[]]"
| "split_slash (ch # t) =
     (if ch = CHR ''/'' then [] # split_slash t
      else (case split_slash t of [] \<Rightarrow> [[ch]] | part # parts \<Rightarrow> (ch # part) # parts))"

definition Path :: "string \<Rightarrow> path" where
  "Path t =
     (if prefix ''/'' t then [''/''] else [])
       @ filter (\<lambda>part. part \<noteq> [] \<and> part \<noteq> ''.'') (split_slash t)"

definition path_name :: "path \<Rightarrow> string" where
  "path_name p = (if p = [] \<or> p = [''/''] then [] else last p)"

definition path_join :: "path \<Rightarrow> string \<Rightarrow> path" where
  "path_join p n = (if n = [] then p else p @ [n])"

text \<open>
  The file system maps a path to what is there: a directory, a directory that the
  process may neither list nor search (\<open>LockedDir\<close>), a file with its content, or a
  spreadsheet written by \<open>to_excel\<close>.  It is an association list, whose order is the
  order in which a directory lists its entries.  The current directory \<open>[]\<close> and the
  root always exist.  Permissions on files, name length limits and a full disk are not
  modelled.
\<close>

record dataframe =
  columns :: "string list"
  rows :: "(string \<times> string) list list"

datatype node = Dir | LockedDir | File string | Sheet dataframe

type_synonym filesystem = "(path \<times> node) list"

definition fs_lookup :: "filesystem \<Rightarrow> path \<Rightarrow> node option" where
  "fs_lookup f p = (if p = [] \<or> p = [''/''] then Some Dir else map_of f p)"

definition is_directory :: "node \<Rightarrow> bool" where
  "is_directory nd = (nd = Dir \<or> nd = LockedDir)"

text \<open>
  \<open>os.stat\<close>: the path is resolved part by part from \<open>seen\<close>.  A part below a locked
  directory raises \<open>PermissionError\<close>; a part below something missing, or below a file,
  is not there (\<open>ENOENT\<close>, \<open>ENOTDIR\<close>), which is the result \<open>None\<close>.
\<close>

fun stat_from :: "filesystem \<Rightarrow> path \<Rightarrow> string list \<Rightarrow> py_error + node option" where
  "stat_from f seen [] = Inr (fs_lookup f seen)"
| "stat_from f seen (n # ns) =
     (case fs_lookup f seen of
        Some Dir \<Rightarrow> stat_from f (seen @ [n]) ns
      | Some LockedDir \<Rightarrow> Inl PermissionError
      | _ \<Rightarrow> Inr None)"

definition fs_stat :: "filesystem \<Rightarrow> path \<Rightarrow> py_error + node option" where
  "fs_stat f p = stat_from f [] p"

text \<open>
  \<open>Path.exists\<close> and \<open>Path.is_dir\<close> call \<open>stat\<close> and take \<open>ENOENT\<close> and \<open>ENOTDIR\<close>
  for a path that is not there; a \<open>PermissionError\<close> is raised again.
\<close>

definition path_exists :: "filesystem \<Rightarrow> path \<Rightarrow> py_error + bool" where
  "path_exists f p =
     (case fs_stat f p of Inl err \<Rightarrow> Inl err | Inr None \<Rightarrow> Inr False | Inr (Some nd) \<Rightarrow> Inr True)"

definition is_dir :: "filesystem \<Rightarrow> path \<Rightarrow> py_error + bool" where
  "is_dir f p =
     (case fs_stat f p of
        Inl err \<Rightarrow> Inl err
      | Inr None \<Rightarrow> Inr False
      | Inr (Some nd) \<Rightarrow> Inr (is_directory nd))"

text \<open>
  The names of the entries of a directory, in listing order, and \<open>os.scandir\<close>, which
  raises for a directory that may not be listed and for what is no directory.
\<close>

definition listdir :: "filesystem \<Rightarrow> path \<Rightarrow> string list" where
  "listdir f d =
     remdups (map last (filter (\<lambda>p. p \<noteq> [] \<and> p \<noteq> [''/''] \<and> butlast p = d) (map fst f)))"

definition scandir :: "filesystem \<Rightarrow> path \<Rightarrow> py_error + string list" where
  "scandir f d =
     (case fs_stat f d of
        Inl err \<Rightarrow> Inl err
      | Inr (Some Dir) \<Rightarrow> Inr (listdir f d)
      | Inr (Some LockedDir) \<Rightarrow> Inl PermissionError
      | Inr _ \<Rightarrow> Inl OSError)"

text \<open>
  \<open>folder.glob("*.json")\<close>, as \<open>pathlib\<close> of Python 3.11 has it: \<open>is_dir\<close> of the
  folder is asked first, and what it raises leaves \<open>glob\<close>; a folder that is not there
  or is no directory gives nothing; otherwise the folder is listed, where a
  \<open>PermissionError\<close> is caught and gives nothing, and the entries whose name ends in
  \<open>.json\<close> are given in listing order, whatever they are.
\<close>

definition glob_json :: "filesystem \<Rightarrow> path \<Rightarrow> py_error + path list" where
  "glob_json f d =
     (case is_dir f d of
        Inl err \<Rightarrow> Inl err
      | Inr False \<Rightarrow> Inr []
      | Inr True \<Rightarrow>
          (case scandir f d of
             Inl err \<Rightarrow> Inr []
           | Inr names \<Rightarrow> Inr (map (\<lambda>n. d @ [n]) (filter (suffix ''.json'') names))))"

text \<open>\<open>open(p, 'rb')\<close> and reading the content.\<close>

definition fs_read :: "filesystem \<Rightarrow> path \<Rightarrow> py_error + string" where
  "fs_read f p =
     (case fs_stat f p of
        Inl err \<Rightarrow> Inl err
      | Inr (Some (File content)) \<Rightarrow> Inr content
      | Inr _ \<Rightarrow> Inl OSError)"

text \<open>
  \<open>open(p, 'wb')\<close> and writing the content: the parent must be a directory that can be
  reached and is not locked, and the path itself must not be a directory.
\<close>

definition fs_write :: "filesystem \<Rightarrow> path \<Rightarrow> node \<Rightarrow> py_error + filesystem" where
  "fs_write f p nd =
     (if p = [] \<or> p = [''/''] then Inl OSError
      else
        (case fs_stat f (butlast p) of
           Inl err \<Rightarrow> Inl err
         | Inr (Some Dir) \<Rightarrow>
             (case fs_lookup f p of
                None \<Rightarrow> Inr (AList.update p nd f)
              | Some old \<Rightarrow> if is_directory old then Inl OSError else Inr (AList.update p nd f))
         | Inr (Some LockedDir) \<Rightarrow> Inl PermissionError
         | Inr _ \<Rightarrow> Inl OSError))"

text \<open>
  \<open>p.mkdir(parents=True, exist_ok=True)\<close>: every missing ancestor is created; a part
  that exists and is not a directory raises, and so does a part below a locked
  directory.
\<close>

fun mkdir_from :: "filesystem \<Rightarrow> path \<Rightarrow> string list \<Rightarrow> py_error + filesystem" where
  "mkdir_from f seen [] = Inr f"
| "mkdir_from f seen (n # ns) =
     (case fs_stat f (seen @ [n]) of
        Inl err \<Rightarrow> Inl err
      | Inr None \<Rightarrow> mkdir_from (f @ [(seen @ [n], Dir)]) (seen @ [n]) ns
      | Inr (Some nd) \<Rightarrow>
          if is_directory nd then mkdir_from f (seen @ [n]) ns else Inl OSError)"

definition mkdir_parents :: "filesystem \<Rightarrow> path \<Rightarrow> py_error + filesystem" where
  "mkdir_parents f p = mkdir_from f [] p"

section \<open>File discovery\<close>

text \<open>
  \<open>Ren3AgentProcessor.get_json_files\<close>: the \<open>*.json\<close> entries of the folder, without
  those whose name starts with \<open>_\<close>, sorted as paths.  What \<open>glob\<close> raises leaves the
  function.
\<close>

definition get_json_files :: "filesystem \<Rightarrow> path \<Rightarrow> py_error + path list" where
  "get_json_files f promo_folder =
     (case glob_json f promo_folder of
        Inl err \<Rightarrow> Inl err
      | Inr found \<Rightarrow> Inr (sort (filter (\<lambda>file. \<not> prefix ''_'' (path_name file)) found)))"

section \<open>Configuration\<close>

text \<open>
  \<open>Ren3Config\<close>: the attributes as \<open>__init__\<close> sets them.  \<open>os.getenv(k)\<close> is \<open>None\<close>
  for an unset variable, so the four identities are optional strings; the three tunables
  are what \<open>int\<close> makes of the variable, or of the default.
\<close>

record config =
  api_url :: string
  user_id :: "string option"
  workspace_id :: "string option"
  agent_uuid :: "string option"
  agent_folder :: "string option"
  batch_size :: int
  poll_interval :: int
  max_retries :: int

definition getenv :: "(string \<rightharpoonup> string) \<Rightarrow> string \<Rightarrow> string \<Rightarrow> string" where
  "getenv environ k dflt = (case environ k of None \<Rightarrow> dflt | Some v \<Rightarrow> v)"

text \<open>\<open>not getattr(self, k)\<close>: true for \<open>None\<close> and for the empty string.\<close>

definition attr_missing :: "string option \<Rightarrow> bool" where
  "attr_missing v = (case v of None \<Rightarrow> True | Some t \<Rightarrow> t = [])"

definition missing_config :: "config \<Rightarrow> string list" where
  "missing_config c =
     map fst (filter (\<lambda>(k, v). attr_missing v)
       [(''user_id'', user_id c), (''workspace_id'', workspace_id c),
        (''agent_uuid'', agent_uuid c), (''agent_folder'', agent_folder c)])"

definition Ren3Config :: "(string \<rightharpoonup> string) \<Rightarrow> py_error + config" where
  "Ren3Config environ =
     (case py_int (getenv environ ''BATCH_SIZE'' ''30'') of
        Inl e \<Rightarrow> Inl e
      | Inr bs \<Rightarrow>
     (case py_int (getenv environ ''POLL_INTERVAL'' ''15'') of
        Inl e \<Rightarrow> Inl e
      | Inr pl \<Rightarrow>
     (case py_int (getenv environ ''MAX_RETRIES'' ''3'') of
        Inl e \<Rightarrow> Inl e
      | Inr mr \<Rightarrow>
          (let c = \<lparr> api_url = getenv environ ''REN3_API_URL'' ''https://backend.ren3.ai'',
                     user_id = environ ''REN3_USER_ID'',
                     workspace_id = environ ''REN3_WORKSPACE_ID'',
                     agent_uuid = environ ''REN3_AGENT_UUID'',
                     agent_folder = environ ''REN3_AGENT_FOLDER'',
                     batch_size = bs, poll_interval = pl, max_retries = mr \<rparr>
           in if missing_config c \<noteq> [] then Inl (MissingConfig (missing_config c))
              else Inr c))))"

section \<open>The service, the clock and the world\<close>

text \<open>
  A request as \<open>requests\<close> sends it: the URL, how the payload travels, the payload, the
  file parts of a multipart upload (name and content) and the timeout in seconds.
\<close>

datatype verb = PostMultipart | PostJson | GetParams | PostJsonStream

record request =
  url :: string
  verb :: verb
  payload :: json
  parts :: "(string \<times> string) list"
  timeout :: nat

text \<open>
  What one attempt to talk to the service ends in: a value, a
  \<open>requests.exceptions.RequestException\<close> (timeout, connection error, a status that
  \<open>raise_for_status\<close> rejects), or another exception.
\<close>

datatype 'a attempt = Returned 'a | RaisedRequestException | RaisedOther py_error

text \<open>
  Everything outside the program is a fixed oracle: \<open>net e n rq\<close> is how the \<open>n\<close>-th
  request of the run ends when it is \<open>rq\<close> and its body is read with \<open>response.json()\<close>,
  \<open>filestream e n rq\<close> how it ends when the body is streamed; \<open>uuid4 e n\<close> is the token
  drawn for batch \<open>n\<close>, \<open>now e\<close> the formatted time at which the results are combined,
  \<open>json_dumps\<close>, \<open>read_csv\<close> and \<open>to_excel\<close> are the library functions of these names
  (\<open>read_csv\<close> on the content of a file), and \<open>sleep_limit e\<close> is the longest sleep
  that the clock of the platform takes.

  A streamed body arrives as the content received and, when the stream broke before its
  end, the exception of that.  \<open>to_excel\<close> either writes the table, or refuses it
  before the file is opened (a sheet that is too large), or breaks while it writes the
  cells (a text that a sheet cannot hold), in which case the workbook that is saved on
  closing holds what was written until then.
\<close>

datatype excel_outcome = Written | Refused py_error | Broke py_error dataframe

record env =
  net :: "nat \<Rightarrow> request \<Rightarrow> json attempt"
  filestream :: "nat \<Rightarrow> request \<Rightarrow> (string \<times> py_error option) attempt"
  uuid4 :: "nat \<Rightarrow> string"
  json_dumps :: "json \<Rightarrow> string"
  now :: string
  read_csv :: "string \<Rightarrow> py_error + dataframe"
  to_excel :: "dataframe \<Rightarrow> excel_outcome"
  sleep_limit :: int

text \<open>
  The state the program changes: the requests sent and the sleeps taken, in order, and
  the file system.  Log output is not modelled.
\<close>

datatype event = Sent request | Slept int

record world =
  trace :: "event list"
  fs :: filesystem

fun is_sent :: "event \<Rightarrow> bool" where
  "is_sent (Sent _) = True"
| "is_sent (Slept _) = False"

definition requests_made :: "world \<Rightarrow> nat" where
  "requests_made w = length (filter is_sent (trace w))"

definition emit :: "event \<Rightarrow> world \<Rightarrow> world" where
  "emit ev w = w\<lparr>trace := trace w @ [ev]\<rparr>"

text \<open>
  \<open>time.sleep(secs)\<close> with an \<open>int\<close>: a negative length raises \<open>ValueError\<close>; a length
  whose nanoseconds do not fit 64 bits, which is one above \<open>max_sleep\<close> seconds, raises
  \<open>OverflowError\<close>; a length that the clock of the platform does not take (on Linux
  the deadline, the reading of the monotonic clock plus the length, must fit as well)
  raises \<open>OSError\<close>.  \<open>longest_sleep\<close> is the longest length that raises nothing.
\<close>

definition max_sleep :: int where
  "max_sleep = 9223372036"

definition longest_sleep :: "env \<Rightarrow> int" where
  "longest_sleep e = min max_sleep (sleep_limit e)"

definition py_sleep :: "env \<Rightarrow> int \<Rightarrow> world \<Rightarrow> py_error + world" where
  "py_sleep e secs w =
     (if secs < 0 then Inl ValueError
      else if max_sleep < secs then Inl OverflowError
      else if sleep_limit e < secs then Inl OSError
      else Inr (emit (Slept secs) w))"

section \<open>The retry gateway\<close>

text \<open>
  \<open>Ren3AgentProcessor._api_call\<close>.  The loop \<open>for attempt in range(max_retries)\<close> is
  \<open>api_attempts\<close>, started at attempt 0; falling out of the loop returns \<open>None\<close>.
  The file objects of an upload are read to their end when the first attempt prepares
  its body, so a later attempt sends the same parts with empty content.
\<close>

definition api_request ::
  "config \<Rightarrow> string \<Rightarrow> json \<Rightarrow> (string \<times> string) list \<Rightarrow> string \<Rightarrow> request" where
  "api_request c endpoint data files method =
     (if files \<noteq> [] then
        \<lparr> url = api_url c @ endpoint, verb = PostMultipart, payload = data,
          parts = files, timeout = 300 \<rparr>
      else if method = ''POST'' then
        \<lparr> url = api_url c @ endpoint, verb = PostJson, payload = data,
          parts = [], timeout = 60 \<rparr>
      else
        \<lparr> url = api_url c @ endpoint, verb = GetParams, payload = data,
          parts = [], timeout = 60 \<rparr>)"

definition attempt_request :: "request \<Rightarrow> int \<Rightarrow> request" where
  "attempt_request rq attempt =
     (if attempt = 0 then rq else rq\<lparr>parts := map (\<lambda>(n, content). (n, [])) (parts rq)\<rparr>)"

function api_attempts ::
  "env \<Rightarrow> config \<Rightarrow> request \<Rightarrow> int \<Rightarrow> world \<Rightarrow> (py_error + json) \<times> world" where
  "api_attempts e c rq attempt w =
     (if attempt < max_retries c then
        (case net e (requests_made w) (attempt_request rq attempt) of
           Returned j \<Rightarrow> (Inr j, emit (Sent (attempt_request rq attempt)) w)
         | RaisedOther err \<Rightarrow> (Inl err, emit (Sent (attempt_request rq attempt)) w)
         | RaisedRequestException \<Rightarrow>
             (if attempt < max_retries c - 1 then
                (case py_sleep e (5 * (attempt + 1))
                        (emit (Sent (attempt_request rq attempt)) w) of
                   Inl err \<Rightarrow> (Inl err, emit (Sent (attempt_request rq attempt)) w)
                 | Inr w2 \<Rightarrow> api_attempts e c rq (attempt + 1) w2)
              else (Inl RequestException, emit (Sent (attempt_request rq attempt)) w)))
      else (Inr JNull, w))"
  by pat_completeness auto
termination
  by (relation "measure (\<lambda>(e, c, rq, attempt, w). nat (max_retries c - attempt))") auto

definition api_call ::
  "env \<Rightarrow> config \<Rightarrow> string \<Rightarrow> json \<Rightarrow> (string \<times> string) list \<Rightarrow> string \<Rightarrow> world
     \<Rightarrow> (py_error + json) \<times> world" where
  "api_call e c endpoint data files method w =
     api_attempts e c (api_request c endpoint data files method) 0 w"

section \<open>Polling\<close>

text \<open>
  The scan of the log entries in \<open>poll_job_status\<close>.  For every entry, in order: when
  \<open>log.get('type') == 2\<close>, the text (default \<open>''\<close>) is lowered and searched for
  \<open>completed\<close>, which ends the scan with \<open>True\<close>; otherwise the text is lowered again
  for the progress message.  \<open>.get\<close> on a value that is no \<open>dict\<close> and \<open>.lower()\<close> on
  a value that is no string raise \<open>AttributeError\<close>.
\<close>

definition text_lower :: "json \<Rightarrow> py_error + string" where
  "text_lower v = (case v of JStr t \<Rightarrow> Inr (lower t) | _ \<Rightarrow> Inl AttributeError)"

definition log_text_lower :: "json \<Rightarrow> py_error + string" where
  "log_text_lower entry =
     (case dict_get_default entry ''text'' (JStr []) of
        Inl err \<Rightarrow> Inl err
      | Inr text \<Rightarrow> text_lower text)"

definition log_completes :: "json \<Rightarrow> py_error + bool" where
  "log_completes entry =
     (case dict_get entry ''type'' of
        Inl err \<Rightarrow> Inl err
      | Inr ty \<Rightarrow>
          (if ty = Some (JInt 2) then
             (case log_text_lower entry of
                Inl err \<Rightarrow> Inl err
              | Inr t \<Rightarrow> Inr (contains ''completed'' t))
           else Inr False))"

fun scan_logs :: "json list \<Rightarrow> py_error + bool" where
  "scan_logs [] = Inr False"
| "scan_logs (entry # entries) =
     (case log_completes entry of
        Inl err \<Rightarrow> Inl err
      | Inr True \<Rightarrow> Inr True
      | Inr False \<Rightarrow>
          (case log_text_lower entry of
             Inl err \<Rightarrow> Inl err
           | Inr t \<Rightarrow> scan_logs entries))"

text \<open>What the \<open>try\<close> block makes of a response: \<open>True\<close> when it returns.\<close>

definition poll_try :: "json \<Rightarrow> py_error + bool" where
  "poll_try response =
     (case dict_get response ''success'' of
        Inl err \<Rightarrow> Inl err
      | Inr ok \<Rightarrow>
          (if truthy_opt ok then
             (case dict_get_default response ''returnObject'' (JList []) of
                Inl err \<Rightarrow> Inl err
              | Inr logs \<Rightarrow>
                  (case py_iter logs of
                     Inl err \<Rightarrow> Inl err
                   | Inr entries \<Rightarrow> scan_logs entries))
           else Inr False))"

definition job_logs_data :: "config \<Rightarrow> json \<Rightarrow> json" where
  "job_logs_data c job_id =
     JObj [(''uuid'', job_id), (''userid'', opt_str (user_id c)),
           (''workspaceid'', opt_str (workspace_id c))]"

text \<open>
  One turn of \<open>while True\<close>.  The sleep at the end of the \<open>try\<close> block is inside the
  block, so an exception of that sleep goes to the handler as well; an exception of the
  sleep in the handler leaves the function.
\<close>

datatype poll_step = Completed | Raised py_error | Again

definition poll_handler :: "env \<Rightarrow> config \<Rightarrow> world \<Rightarrow> poll_step \<times> world" where
  "poll_handler e c w =
     (case py_sleep e (poll_interval c) w of
        Inl err \<Rightarrow> (Raised err, w)
      | Inr w' \<Rightarrow> (Again, w'))"

definition poll_body :: "env \<Rightarrow> config \<Rightarrow> json \<Rightarrow> world \<Rightarrow> poll_step \<times> world" where
  "poll_body e c job_id w =
     (case api_call e c ''/agentdrive/get_agentjoblogs'' (job_logs_data c job_id) [] ''POST'' w of
        (Inl err, w1) \<Rightarrow> poll_handler e c w1
      | (Inr response, w1) \<Rightarrow>
          (case poll_try response of
             Inl err \<Rightarrow> poll_handler e c w1
           | Inr True \<Rightarrow> (Completed, w1)
           | Inr False \<Rightarrow>
               (case py_sleep e (poll_interval c) w1 of
                  Inl err \<Rightarrow> poll_handler e c w1
                | Inr w2 \<Rightarrow> (Again, w2))))"

text \<open>
  \<open>Ren3AgentProcessor.poll_job_status\<close>.  The loop has no bound, so the function is
  partial: \<open>None\<close> is the run that never returns.
\<close>

partial_function (option) poll_job_status ::
  "env \<Rightarrow> config \<Rightarrow> json \<Rightarrow> world \<Rightarrow> ((py_error + bool) \<times> world) option" where
  "poll_job_status e c job_id w =
     (case poll_body e c job_id w of
        (Completed, w') \<Rightarrow> Some (Inr True, w')
      | (Raised err, w') \<Rightarrow> Some (Inl err, w')
      | (Again, w') \<Rightarrow> poll_job_status e c job_id w')"

section \<open>Batching\<close>

text \<open>
  \<open>Ren3AgentProcessor.create_batches\<close>: one slice \<open>json_files[i:i + batch_size]\<close> for
  every \<open>i\<close> of \<open>range(0, len(json_files), batch_size)\<close>, appended in that order.
  The batch size is \<open>self.config.batch_size\<close>, Python's unbounded \<open>int\<close>.
\<close>

definition create_batches :: "config \<Rightarrow> 'a list \<Rightarrow> py_error + 'a list list" where
  "create_batches c json_files =
     (case py_range 0 (int (length json_files)) (batch_size c) of
        Inl e \<Rightarrow> Inl e
      | Inr idxs \<Rightarrow> Inr (map (\<lambda>i. py_slice json_files i (i + batch_size c)) idxs))"

section \<open>The calls of one batch\<close>

text \<open>
  \<open>upload_files\<close>: every file of the batch is opened before the call (an exception of
  \<open>open\<close> leaves the function at once), then the form and the files go out as one
  multipart request.  A response whose \<open>success\<close> is not truthy raises \<open>Exception\<close>.
\<close>

fun open_all :: "filesystem \<Rightarrow> path list \<Rightarrow> py_error + (string \<times> string) list" where
  "open_all f [] = Inr []"
| "open_all f (p # ps) =
     (case fs_read f p of
        Inl err \<Rightarrow> Inl err
      | Inr content \<Rightarrow>
          (case open_all f ps of
             Inl err \<Rightarrow> Inl err
           | Inr rest \<Rightarrow> Inr ((path_name p, content) # rest)))"

definition upload_form :: "env \<Rightarrow> config \<Rightarrow> string \<Rightarrow> json" where
  "upload_form e c temp_folder_uuid =
     JObj [(''workspaceid'', opt_str (workspace_id c)),
           (''useruuid'', opt_str (user_id c)),
           (''uploadtype'', JStr ''agents''),
           (''fileignoreparent'', JStr ''false''),
           (''parentfolder'', JStr temp_folder_uuid),
           (''forceOverwrite'', JStr ''true''),
           (''tempfolderuuid'', JStr temp_folder_uuid),
           (''agentuuid'', opt_str (agent_uuid c)),
           (''agent_folder'', opt_str (agent_folder c)),
           (''extra'', JStr (json_dumps e (JObj
              [(''tempfolderuuid'', JStr temp_folder_uuid),
               (''agentuuid'', opt_str (agent_uuid c)),
               (''agent_folder'', opt_str (agent_folder c))])))]"

text \<open>The check \<open>if response.get('success')\<close> that every caller of the gateway makes.\<close>

definition check_success :: "json \<Rightarrow> py_error + json" where
  "check_success response =
     (case dict_get response ''success'' of
        Inl err \<Rightarrow> Inl err
      | Inr ok \<Rightarrow> if truthy_opt ok then Inr response else Inl PlainException)"

definition upload_files ::
  "env \<Rightarrow> config \<Rightarrow> path list \<Rightarrow> string \<Rightarrow> world \<Rightarrow> (py_error + json) \<times> world" where
  "upload_files e c batch temp_folder_uuid w =
     (case open_all (fs w) batch of
        Inl err \<Rightarrow> (Inl err, w)
      | Inr files \<Rightarrow>
          (case api_call e c ''/upload_agenttmpfiles'' (upload_form e c temp_folder_uuid)
                  files ''POST'' w of
             (Inl err, w1) \<Rightarrow> (Inl err, w1)
           | (Inr response, w1) \<Rightarrow> (check_success response, w1)))"

definition input_files_data :: "config \<Rightarrow> string \<Rightarrow> json" where
  "input_files_data c temp_folder_uuid =
     JObj [(''input_folder'', JStr temp_folder_uuid), (''userid'', opt_str (user_id c)),
           (''workspaceid'', opt_str (workspace_id c))]"

text \<open>
  \<open>get_job_input_files\<close>: the list under \<open>returnObject\<close> (default \<open>[]\<close>) is returned as
  it is; the log message takes its \<open>len\<close>, which raises for a value without a length.
\<close>

definition returned_list :: "json \<Rightarrow> py_error + json" where
  "returned_list response =
     (case check_success response of
        Inl err \<Rightarrow> Inl err
      | Inr r \<Rightarrow>
          (case dict_get_default r ''returnObject'' (JList []) of
             Inl err \<Rightarrow> Inl err
           | Inr files \<Rightarrow> (case py_len files of Inl err \<Rightarrow> Inl err | Inr _ \<Rightarrow> Inr files)))"

definition get_job_input_files ::
  "env \<Rightarrow> config \<Rightarrow> string \<Rightarrow> world \<Rightarrow> (py_error + json) \<times> world" where
  "get_job_input_files e c temp_folder_uuid w =
     (case api_call e c ''/agentdrive/get_jobinputfiles'' (input_files_data c temp_folder_uuid)
             [] ''POST'' w of
        (Inl err, w1) \<Rightarrow> (Inl err, w1)
      | (Inr response, w1) \<Rightarrow> (returned_list response, w1))"

definition run_agent_data :: "config \<Rightarrow> json \<Rightarrow> string \<Rightarrow> json" where
  "run_agent_data c input_files temp_folder_uuid =
     JObj [(''data'', JObj [(''agent_uuid'', opt_str (agent_uuid c)),
                            (''input_files'', input_files),
                            (''temp_folder'', JStr temp_folder_uuid)]),
           (''userid'', opt_str (user_id c)),
           (''workspaceid'', opt_str (workspace_id c))]"

definition getitem2 :: "json \<Rightarrow> string \<Rightarrow> string \<Rightarrow> py_error + json" where
  "getitem2 d k1 k2 =
     (case py_getitem d k1 of Inl err \<Rightarrow> Inl err | Inr v \<Rightarrow> py_getitem v k2)"

definition run_agent ::
  "env \<Rightarrow> config \<Rightarrow> json \<Rightarrow> string \<Rightarrow> world \<Rightarrow> (py_error + json) \<times> world" where
  "run_agent e c input_files temp_folder_uuid w =
     (case py_len input_files of
        Inl err \<Rightarrow> (Inl err, w)
      | Inr _ \<Rightarrow>
          (case api_call e c ''/agentdrive/run_agent''
                  (run_agent_data c input_files temp_folder_uuid) [] ''POST'' w of
             (Inl err, w1) \<Rightarrow> (Inl err, w1)
           | (Inr response, w1) \<Rightarrow>
               (case check_success response of
                  Inl err \<Rightarrow> (Inl err, w1)
                | Inr r \<Rightarrow> (getitem2 r ''returnObject'' ''uuid'', w1))))"

definition job_details_data :: "config \<Rightarrow> json \<Rightarrow> json" where
  "job_details_data c job_id =
     JObj [(''detailed'', JInt 1), (''uuid'', job_id), (''userid'', opt_str (user_id c)),
           (''workspaceid'', opt_str (workspace_id c))]"

definition get_job_details ::
  "env \<Rightarrow> config \<Rightarrow> json \<Rightarrow> world \<Rightarrow> (py_error + json) \<times> world" where
  "get_job_details e c job_id w =
     (case api_call e c ''/agentdrive/get_jobdetails'' (job_details_data c job_id) [] ''POST'' w of
        (Inl err, w1) \<Rightarrow> (Inl err, w1)
      | (Inr response, w1) \<Rightarrow>
          (case check_success response of
             Inl err \<Rightarrow> (Inl err, w1)
           | Inr r \<Rightarrow>
               (case py_getitem r ''returnObject'' of
                  Inl err \<Rightarrow> (Inl err, w1)
                | Inr job_details \<Rightarrow>
                    (case getitem2 job_details ''agentJob'' ''output_folder'' of
                       Inl err \<Rightarrow> (Inl err, w1)
                     | Inr _ \<Rightarrow> (Inr job_details, w1)))))"

definition output_files_data :: "config \<Rightarrow> json \<Rightarrow> json" where
  "output_files_data c output_folder =
     JObj [(''type'', JStr ''agents''),
           (''fields'', JList [JStr ''uuid'', JStr ''doc_filename'', JStr ''is_folder'',
                               JStr ''doc_extension'']),
           (''filter'', JObj
              [(''status'', JList [JStr [], JNull]),
               (''parent_folder'', output_folder),
               (''workspace_id'', opt_str (workspace_id c)),
               (''ingestion_status'', JInt 5),
               (''folder_type'', JObj [(''operator'', JStr ''ISNULLANDVALUE''), (''value'', JInt 0)]),
               (''isbundlechild'', JObj [(''operator'', JStr ''ISNULLANDVALUE''), (''value'', JInt 0)]),
               (''latest_version'', JInt 1)]),
           (''parent_folder'', output_folder),
           (''useruuid'', opt_str (user_id c)),
           (''workspaceid'', opt_str (workspace_id c)),
           (''order'', JStr ''is_folder DESC,folder_type ASC,doc_filename ASC'')]"

definition get_output_files ::
  "env \<Rightarrow> config \<Rightarrow> json \<Rightarrow> world \<Rightarrow> (py_error + json) \<times> world" where
  "get_output_files e c output_folder w =
     (case api_call e c ''/tensordrive/get_docs'' (output_files_data c output_folder) [] ''POST'' w of
        (Inl err, w1) \<Rightarrow> (Inl err, w1)
      | (Inr response, w1) \<Rightarrow> (returned_list response, w1))"

text \<open>
  \<open>download_csv\<close> posts to the file-stream endpoint through the session itself, once,
  opens the output path and writes the streamed body to it.  Its handler logs and
  raises again.  A request that fails leaves the file system as it was; a stream that
  breaks after the file was opened leaves the file with what had arrived.
\<close>

definition download_data :: "config \<Rightarrow> json \<Rightarrow> json" where
  "download_data c doc_uuid =
     JObj [(''docuuid'', doc_uuid), (''userid'', opt_str (user_id c)),
           (''workspaceid'', opt_str (workspace_id c))]"

definition download_request :: "config \<Rightarrow> json \<Rightarrow> request" where
  "download_request c doc_uuid =
     \<lparr> url = api_url c @ ''/tensordrive/get_filestream'', verb = PostJsonStream,
       payload = download_data c doc_uuid, parts = [], timeout = 120 \<rparr>"

definition download_csv ::
  "env \<Rightarrow> config \<Rightarrow> json \<Rightarrow> path \<Rightarrow> world \<Rightarrow> (py_error + path) \<times> world" where
  "download_csv e c doc_uuid output_path w =
     (case filestream e (requests_made w) (download_request c doc_uuid) of
        RaisedRequestException \<Rightarrow> (Inl RequestException, emit (Sent (download_request c doc_uuid)) w)
      | RaisedOther err \<Rightarrow> (Inl err, emit (Sent (download_request c doc_uuid)) w)
      | Returned (content, broke) \<Rightarrow>
          (case fs_write (fs w) output_path (File content) of
             Inl err \<Rightarrow> (Inl err, emit (Sent (download_request c doc_uuid)) w)
           | Inr f' \<Rightarrow>
               (case broke of
                  None \<Rightarrow>
                    (Inr output_path, (emit (Sent (download_request c doc_uuid)) w)\<lparr>fs := f'\<rparr>)
                | Some err \<Rightarrow>
                    (Inl err, (emit (Sent (download_request c doc_uuid)) w)\<lparr>fs := f'\<rparr>))))"

section \<open>Merging\<close>

text \<open>
  A table is its column names and its rows, a row giving the cell of each column it
  has.  \<open>pd.concat\<close> of two tables has the columns of the first followed by the new
  columns of the second, and the rows of both in order; a row has no cell for a column
  that its own table did not have.  Cell types are not modelled.  The tables that
  \<open>read_csv\<close> gives have distinct column names (it renames a repeated name), for which
  \<open>pd.concat\<close> raises nothing.
\<close>

definition empty_df :: dataframe where
  "empty_df = \<lparr> columns = [], rows = [] \<rparr>"

definition df_concat :: "dataframe \<Rightarrow> dataframe \<Rightarrow> dataframe" where
  "df_concat a b =
     \<lparr> columns = columns a @ filter (\<lambda>col. col \<notin> set (columns a)) (columns b),
       rows = rows a @ rows b \<rparr>"

definition pd_read_csv :: "env \<Rightarrow> filesystem \<Rightarrow> path \<Rightarrow> py_error + dataframe" where
  "pd_read_csv e f p =
     (case fs_read f p of Inl err \<Rightarrow> Inl err | Inr content \<Rightarrow> read_csv e content)"

text \<open>
  \<open>combine_csvs\<close>: the loop catches whatever reading a file raises and goes on with the
  next file.  \<open>to_excel\<close> then writes the table; it stands after the loop, outside the
  \<open>try\<close>, so what it raises leaves the function, be it for the path or for the table.
\<close>

fun combine_loop :: "env \<Rightarrow> filesystem \<Rightarrow> path list \<Rightarrow> dataframe \<Rightarrow> dataframe" where
  "combine_loop e f [] combined_df = combined_df"
| "combine_loop e f (csv_file # rest) combined_df =
     (case pd_read_csv e f csv_file of
        Inl err \<Rightarrow> combine_loop e f rest combined_df
      | Inr df \<Rightarrow> combine_loop e f rest (df_concat combined_df df))"

definition combine_csvs ::
  "env \<Rightarrow> path list \<Rightarrow> path \<Rightarrow> world \<Rightarrow> (py_error + path) \<times> world" where
  "combine_csvs e csv_files output_path w =
     (case to_excel e (combine_loop e (fs w) csv_files empty_df) of
        Refused err \<Rightarrow> (Inl err, w)
      | Written \<Rightarrow>
          (case fs_write (fs w) output_path
                  (Sheet (combine_loop e (fs w) csv_files empty_df)) of
             Inl err \<Rightarrow> (Inl err, w)
           | Inr f' \<Rightarrow> (Inr output_path, w\<lparr>fs := f'\<rparr>))
      | Broke err written \<Rightarrow>
          (case fs_write (fs w) output_path (Sheet written) of
             Inl err' \<Rightarrow> (Inl err', w)
           | Inr f' \<Rightarrow> (Inl err, w\<lparr>fs := f'\<rparr>)))"

section \<open>The pipeline\<close>

text \<open>
  The search for the result document in the listed output files: the first entry whose
  \<open>doc_filename\<close> is the expected name.
\<close>

fun find_first :: "json list \<Rightarrow> py_error + json option" where
  "find_first [] = Inr None"
| "find_first (file # rest) =
     (case py_getitem file ''doc_filename'' of
        Inl err \<Rightarrow> Inl err
      | Inr n \<Rightarrow>
          if n = JStr ''competitive_analysis_results.csv'' then Inr (Some file)
          else find_first rest)"

definition find_csv :: "json \<Rightarrow> py_error + json option" where
  "find_csv output_files =
     (case py_iter output_files of Inl err \<Rightarrow> Inl err | Inr files \<Rightarrow> find_first files)"

text \<open>
  The body of the inner \<open>try\<close> of \<open>process_promo_folder\<close> for one batch.  Its result is
  \<open>None\<close> when polling never returns; otherwise an exception, or \<open>Inr None\<close> when the
  result document is not listed, or the path of the downloaded file.
\<close>

definition process_batch ::
  "env \<Rightarrow> config \<Rightarrow> path \<Rightarrow> nat \<Rightarrow> path list \<Rightarrow> world
     \<Rightarrow> ((py_error + path option) \<times> world) option" where
  "process_batch e c processed_dir batch_num batch w =
     (case upload_files e c batch (uuid4 e batch_num) w of
        (Inl err, w1) \<Rightarrow> Some (Inl err, w1)
      | (Inr _, w1) \<Rightarrow>
     (case py_sleep e 5 w1 of
        Inl err \<Rightarrow> Some (Inl err, w1)
      | Inr w2 \<Rightarrow>
     (case get_job_input_files e c (uuid4 e batch_num) w2 of
        (Inl err, w3) \<Rightarrow> Some (Inl err, w3)
      | (Inr input_files, w3) \<Rightarrow>
     (case run_agent e c input_files (uuid4 e batch_num) w3 of
        (Inl err, w4) \<Rightarrow> Some (Inl err, w4)
      | (Inr job_id, w4) \<Rightarrow>
     (case poll_job_status e c job_id w4 of
        None \<Rightarrow> None
      | Some (Inl err, w5) \<Rightarrow> Some (Inl err, w5)
      | Some (Inr _, w5) \<Rightarrow>
     (case get_job_details e c job_id w5 of
        (Inl err, w6) \<Rightarrow> Some (Inl err, w6)
      | (Inr job_details, w6) \<Rightarrow>
     (case getitem2 job_details ''agentJob'' ''output_folder'' of
        Inl err \<Rightarrow> Some (Inl err, w6)
      | Inr output_folder \<Rightarrow>
     (case get_output_files e c output_folder w6 of
        (Inl err, w7) \<Rightarrow> Some (Inl err, w7)
      | (Inr output_files, w7) \<Rightarrow>
     (case find_csv output_files of
        Inl err \<Rightarrow> Some (Inl err, w7)
      | Inr None \<Rightarrow> Some (Inr None, w7)
      | Inr (Some csv_file) \<Rightarrow>
     (case py_getitem csv_file ''uuid'' of
        Inl err \<Rightarrow> Some (Inl err, w7)
      | Inr doc_uuid \<Rightarrow>
     (case download_csv e c doc_uuid
             (path_join processed_dir (''batch_'' @ fmt_03d batch_num @ ''.csv'')) w7 of
        (Inl err, w8) \<Rightarrow> Some (Inl err, w8)
      | (Inr csv_path, w8) \<Rightarrow> Some (Inr (Some csv_path), w8))))))))))))"

text \<open>
  The loop \<open>for batch_num, batch in enumerate(batches, 1)\<close>: a batch that raised, or
  whose document was not found, is left with \<open>continue\<close>; after a batch that was
  downloaded, and that is not the last, the loop sleeps 5 seconds.
\<close>

fun process_batches ::
  "env \<Rightarrow> config \<Rightarrow> path \<Rightarrow> nat \<Rightarrow> (nat \<times> path list) list \<Rightarrow> path list \<Rightarrow> world
     \<Rightarrow> ((py_error + path list) \<times> world) option" where
  "process_batches e c processed_dir n_batches [] csv_files w = Some (Inr csv_files, w)"
| "process_batches e c processed_dir n_batches ((batch_num, batch) # rest) csv_files w =
     (case process_batch e c processed_dir batch_num batch w of
        None \<Rightarrow> None
      | Some (Inl err, w1) \<Rightarrow> process_batches e c processed_dir n_batches rest csv_files w1
      | Some (Inr None, w1) \<Rightarrow> process_batches e c processed_dir n_batches rest csv_files w1
      | Some (Inr (Some csv_path), w1) \<Rightarrow>
          (if batch_num < n_batches then
             (case py_sleep e 5 w1 of
                Inl err \<Rightarrow> Some (Inl err, w1)
              | Inr w2 \<Rightarrow>
                  process_batches e c processed_dir n_batches rest (csv_files @ [csv_path]) w2)
           else process_batches e c processed_dir n_batches rest (csv_files @ [csv_path]) w1))"

text \<open>
  \<open>process_promo_folder\<close>.  The folder check and \<open>mkdir\<close> stand before the outer
  \<open>try\<close>, so what \<open>exists\<close> or \<open>mkdir\<close> raises leaves the function; everything after
  is inside, and its handler returns \<open>None\<close>.  The result is the path of the combined spreadsheet, or
  \<open>None\<close>.
\<close>

definition final_excel_path :: "env \<Rightarrow> path \<Rightarrow> path" where
  "final_excel_path e processed_dir =
     path_join processed_dir (''final_analysis_'' @ now e @ ''.xlsx'')"

definition process_promo_folder ::
  "env \<Rightarrow> config \<Rightarrow> string \<Rightarrow> world \<Rightarrow> ((py_error + path option) \<times> world) option" where
  "process_promo_folder e c promo_folder_path w =
     (case path_exists (fs w) (Path promo_folder_path) of
        Inl err \<Rightarrow> Some (Inl err, w)
      | Inr False \<Rightarrow> Some (Inr None, w)
      | Inr True \<Rightarrow>
        (case mkdir_parents (fs w)
                (path_join [''processed''] (path_name (Path promo_folder_path))) of
           Inl err \<Rightarrow> Some (Inl err, w)
         | Inr f1 \<Rightarrow>
        (case get_json_files f1 (Path promo_folder_path) of
           Inl err \<Rightarrow> Some (Inr None, w\<lparr>fs := f1\<rparr>)
         | Inr json_files \<Rightarrow>
        (if json_files = [] then Some (Inr None, w\<lparr>fs := f1\<rparr>)
         else
        (case create_batches c json_files of
           Inl err \<Rightarrow> Some (Inr None, w\<lparr>fs := f1\<rparr>)
         | Inr batches \<Rightarrow>
        (case process_batches e c
                (path_join [''processed''] (path_name (Path promo_folder_path)))
                (length batches) (enumerate 1 batches) [] (w\<lparr>fs := f1\<rparr>) of
           None \<Rightarrow> None
         | Some (Inl err, w2) \<Rightarrow> Some (Inr None, w2)
         | Some (Inr csv_files, w2) \<Rightarrow>
             (if csv_files \<noteq> [] then
                (case combine_csvs e csv_files
                        (final_excel_path e
                           (path_join [''processed''] (path_name (Path promo_folder_path)))) w2 of
                   (Inl err, w3) \<Rightarrow> Some (Inr None, w3)
                 | (Inr final_excel, w3) \<Rightarrow> Some (Inr (Some final_excel), w3))
              else Some (Inr None, w2))))))))"

text \<open>
  \<open>main\<close>: the exit code of the process, and \<open>None\<close> for a run that never ends.
  \<open>argv\<close> is \<open>sys.argv\<close>, \<open>environ\<close> the environment.
\<close>

definition main ::
  "env \<Rightarrow> string list \<Rightarrow> (string \<rightharpoonup> string) \<Rightarrow> world \<Rightarrow> (int \<times> world) option" where
  "main e argv environ w =
     (if length argv < 2 then Some (1, w)
      else
        (case Ren3Config environ of
           Inl err \<Rightarrow> Some (1, w)
         | Inr config \<Rightarrow>
             (case process_promo_folder e config (argv ! 1) w of
                None \<Rightarrow> None
              | Some (Inl err, w') \<Rightarrow> Some (1, w')
              | Some (Inr None, w') \<Rightarrow> Some (1, w')
              | Some (Inr (Some final_excel), w') \<Rightarrow> Some (0, w'))))"

section \<open>Example inputs\<close>

text \<open>An environment with the four identities set and every tunable left to its default.\<close>

definition environ_ok :: "string \<rightharpoonup> string" where
  "environ_ok = [''REN3_USER_ID'' \<mapsto> ''u'', ''REN3_WORKSPACE_ID'' \<mapsto> ''w'',
     ''REN3_AGENT_UUID'' \<mapsto> ''a'', ''REN3_AGENT_FOLDER'' \<mapsto> ''f'']"

definition config_ok :: config where
  "config_ok = \<lparr> api_url = ''https://backend.ren3.ai'', user_id = Some ''u'',
     workspace_id = Some ''w'', agent_uuid = Some ''a'', agent_folder = Some ''f'',
     batch_size = 30, poll_interval = 15, max_retries = 3 \<rparr>"

text \<open>
  A file system with a folder of two eligible files, one marked file and one file that is
  not JSON; a folder without eligible files; an empty folder; a folder with a
  directory whose name ends in \<open>.json\<close>; and a folder below a locked directory.
\<close>

definition fs_example :: filesystem where
  "fs_example =
     [([''promo''], Dir), ([''promo'', ''b.json''], File ''[2]''),
      ([''promo'', ''_meta.json''], File ''{}''), ([''promo'', ''notes.txt''], File ''x''),
      ([''promo'', ''a.json''], File ''[1]''),
      ([''skip''], Dir), ([''skip'', ''_meta.json''], File ''{}''),
      ([''skip'', ''notes.txt''], File ''x''),
      ([''empty''], Dir),
      ([''odd''], Dir), ([''odd'', ''sub.json''], Dir),
      ([''odd'', ''sub.json'', ''notes.txt''], File ''x''),
      ([''vault''], LockedDir), ([''vault'', ''promo''], Dir),
      ([''vault'', ''promo'', ''a.json''], File ''[1]'')]"

definition world0 :: world where
  "world0 = \<lparr> trace = [], fs = fs_example \<rparr>"

text \<open>
  A reader of plain comma-separated text, without quoting and without cell types: the
  first line that is not empty names the columns and every later one is a row.  It
  raises when there is no line at all and when a row has more cells than there are
  columns (\<open>EmptyDataError\<close> and \<open>ParserError\<close> of \<open>pandas\<close>, both a \<open>ValueError\<close>).
\<close>

fun split_at :: "char \<Rightarrow> string \<Rightarrow> string list" where
  "split_at sep [] = [[]]"
| "split_at sep (ch # t) =
     (if ch = sep then [] # split_at sep t
      else (case split_at sep t of [] \<Rightarrow> [[ch]] | cell # cells \<Rightarrow> (ch # cell) # cells))"

definition csv_lines :: "string \<Rightarrow> string list" where
  "csv_lines content = filter (\<lambda>l. l \<noteq> []) (split_at (CHR 0x0A) content)"

definition csv_cells :: "string \<Rightarrow> string list" where
  "csv_cells l = split_at (CHR '','') l"

definition plain_csv :: "string \<Rightarrow> py_error + dataframe" where
  "plain_csv content =
     (case csv_lines content of
        [] \<Rightarrow> Inl ValueError
      | header # body \<Rightarrow>
          (if list_ex (\<lambda>l. length (csv_cells header) < length (csv_cells l)) body
           then Inl ValueError
           else Inr \<lparr> columns = csv_cells header,
                      rows = map (\<lambda>l. zip (csv_cells header) (csv_cells l)) body \<rparr>))"

text \<open>
  A spreadsheet writer with the limits of \<open>openpyxl\<close>: a table of more rows or columns
  than a sheet has is refused (\<open>ValueError\<close>); a cell with a control character other
  than tab, line feed and carriage return breaks the writing at its row
  (\<open>IllegalCharacterError\<close>).
\<close>

definition legal_char :: "char \<Rightarrow> bool" where
  "legal_char ch = (CHR 0x20 \<le> ch \<or> ch \<in> set [CHR 0x09, CHR 0x0A, CHR 0x0D])"

definition legal_row :: "(string \<times> string) list \<Rightarrow> bool" where
  "legal_row r = list_all (\<lambda>(col, cell). list_all legal_char cell) r"

definition plain_excel :: "dataframe \<Rightarrow> excel_outcome" where
  "plain_excel df =
     (if 1048575 < length (rows df) \<or> 16384 < length (columns df) then Refused ValueError
      else if list_all legal_row (rows df) then Written
      else Broke IllegalCharacterError (df\<lparr>rows := takeWhile legal_row (rows df)\<rparr>))"

text \<open>
  A service that is down: every request ends in a \<open>RequestException\<close>.  The longest
  sleep is that of a Linux machine that has been up for 20361 seconds.
\<close>

definition env_down :: env where
  "env_down =
     \<lparr> net = (\<lambda>n rq. RaisedRequestException),
       filestream = (\<lambda>n rq. RaisedRequestException),
       uuid4 = (\<lambda>n. ''temp-'' @ str_nat n),
       json_dumps = (\<lambda>j. ''{}''),
       now = ''20250101_000000'',
       read_csv = plain_csv,
       to_excel = plain_excel,
       sleep_limit = 9223351675 \<rparr>"


text \<open>
  The events of \<open>k\<close> failed attempts of the gateway, the first of them attempt \<open>a\<close>
  (counted from 0): each request is followed by the sleep of \<open>5 * (attempt + 1)\<close>
  seconds.
\<close>

fun failed_attempts :: "request \<Rightarrow> int \<Rightarrow> nat \<Rightarrow> event list" where
  "failed_attempts rq a 0 = []"
| "failed_attempts rq a (Suc k) =
     Sent (attempt_request rq a) # Slept (5 * (a + 1)) # failed_attempts rq (a + 1) k"


text \<open>
  A service whose first two requests end in a \<open>RequestException\<close> and whose later
  requests succeed; a download succeeds from the second request on.
\<close>

definition env_flaky :: env where
  "env_flaky =
     env_down\<lparr> net := (\<lambda>n rq. if n < 2 then RaisedRequestException
                              else Returned (JObj [(''success'', JBool True)])),
               filestream := (\<lambda>n rq. if n < 1 then RaisedRequestException
                                     else Returned (''a,b'', None)) \<rparr>"

text \<open>
  The entry that the specification calls a completion entry: an object whose \<open>type\<close> is
  2 and whose \<open>text\<close> is a string that contains \<open>completed\<close> once lowered.  An entry is
  readable when it is an object whose \<open>text\<close> is absent or a string.
\<close>

definition completion_entry :: "json \<Rightarrow> bool" where
  "completion_entry entry =
     (case entry of
        JObj kvs \<Rightarrow>
          map_of kvs ''type'' = Some (JInt 2)
          \<and> (case map_of kvs ''text'' of
                Some (JStr t) \<Rightarrow> contains ''completed'' (lower t)
              | _ \<Rightarrow> False)
      | _ \<Rightarrow> False)"

definition readable_entry :: "json \<Rightarrow> bool" where
  "readable_entry entry =
     (case entry of
        JObj kvs \<Rightarrow> (case map_of kvs ''text'' of None \<Rightarrow> True | Some (JStr t) \<Rightarrow> True | Some _ \<Rightarrow> False)
      | _ \<Rightarrow> False)"




text \<open>
  The tables of the files that can be read, in the order of the files; and when a path
  can be written: its parent is a directory that can be reached and is not locked, and
  the path itself is no directory.
\<close>

fun readable_frames :: "env \<Rightarrow> filesystem \<Rightarrow> path list \<Rightarrow> dataframe list" where
  "readable_frames e f [] = []"
| "readable_frames e f (csv_file # rest) =
     (case pd_read_csv e f csv_file of
        Inl err \<Rightarrow> readable_frames e f rest
      | Inr df \<Rightarrow> df # readable_frames e f rest)"

definition writable :: "filesystem \<Rightarrow> path \<Rightarrow> bool" where
  "writable f p =
     (p \<noteq> [] \<and> p \<noteq> [''/''] \<and> fs_stat f (butlast p) = Inr (Some Dir)
      \<and> (case fs_lookup f p of None \<Rightarrow> True | Some old \<Rightarrow> \<not> is_directory old))"

text \<open>
  A file system with three downloaded files, the second of them empty (which
  \<open>read_csv\<close> rejects), and a fourth whose second row has a cell with the control
  character 1 (which \<open>read_csv\<close> reads and a sheet cannot hold).
\<close>

definition fs_csv :: filesystem where
  "fs_csv =
     [([''processed''], Dir), ([''processed'', ''promo''], Dir),
      ([''processed'', ''promo'', ''batch_001.csv''],
         File (''name,price'' @ [CHR 0x0A] @ ''A,1'' @ [CHR 0x0A])),
      ([''processed'', ''promo'', ''batch_002.csv''], File ''''),
      ([''processed'', ''promo'', ''batch_003.csv''],
         File (''name,price'' @ [CHR 0x0A] @ ''B,2'' @ [CHR 0x0A] @ ''C,3'' @ [CHR 0x0A])),
      ([''processed'', ''promo'', ''batch_004.csv''],
         File (''name,price'' @ [CHR 0x0A] @ ''D,4'' @ [CHR 0x0A]
               @ ''E'' @ [CHR 0x01] @ '',5'' @ [CHR 0x0A]))]"

section \<open>Properties of batching\<close>

declare py_range_up.simps [simp del] py_range_down.simps [simp del]

lemma py_range_up_length:
  "0 < step \<Longrightarrow> int (length (py_range_up i stop step)) = max 0 (- ((i - stop) div step))"
proof (induction i stop step rule: py_range_up.induct)
  case (1 i stop step)
  show ?case
  proof (cases "i < stop")
    case True
    have "i + step - stop = (i - stop) + step"
      by simp
    also have "\<dots> div step = (i - stop) div step + 1"
      using 1(2) by (intro div_add_self2) simp
    finally have "(i + step - stop) div step = (i - stop) div step + 1" .
    moreover have "(i - stop) div step < 0"
      using True 1(2) by (simp add: pos_imp_zdiv_neg_iff)
    ultimately show ?thesis
      using True 1 by (subst py_range_up.simps) simp
  next
    case False
    then have "0 \<le> (i - stop) div step"
      using 1(2) by (simp add: pos_imp_zdiv_nonneg_iff)
    then show ?thesis
      using False by (subst py_range_up.simps) simp
  qed
qed

lemma py_range_up_nonneg:
  "0 \<le> i \<Longrightarrow> k \<in> set (py_range_up i stop step) \<Longrightarrow> 0 \<le> k"
proof (induction i stop step rule: py_range_up.induct)
  case (1 i stop step)
  have "k \<in> set (if 0 < step \<and> i < stop then i # py_range_up (i + step) stop step else [])"
    using 1(3) by (subst (asm) py_range_up.simps) simp
  then have "0 < step \<and> i < stop" and "k = i \<or> k \<in> set (py_range_up (i + step) stop step)"
    by (auto split: if_splits)
  then show ?case
    using 1(1) 1(2) by auto
qed

lemma py_slice_nonneg:
  "0 \<le> i \<Longrightarrow> 0 \<le> b \<Longrightarrow> py_slice xs i (i + b) = take (nat b) (drop (nat i) xs)"
  by (auto simp: py_slice_def slice_bound_def Let_def min_def nat_add_distrib)

lemma concat_slices:
  "0 < b \<Longrightarrow> 0 \<le> i \<Longrightarrow>
   concat (map (\<lambda>k. py_slice xs k (k + b)) (py_range_up i (int (length xs)) b)) = drop (nat i) xs"
proof (induction i "int (length xs)" b rule: py_range_up.induct)
  case (1 i step)
  show ?case
  proof (cases "i < int (length xs)")
    case True
    have "drop (nat (i + step)) xs = drop (nat step) (drop (nat i) xs)"
      using 1(2,3) by (simp add: nat_add_distrib add.commute)
    moreover have "take (nat step) (drop (nat i) xs) @ drop (nat step) (drop (nat i) xs)
        = drop (nat i) xs"
      by (rule append_take_drop_id)
    moreover have "concat (map (\<lambda>k. py_slice xs k (k + step))
        (py_range_up (i + step) (int (length xs)) step)) = drop (nat (i + step)) xs"
      using True 1 by simp
    moreover have "py_slice xs i (i + step) = take (nat step) (drop (nat i) xs)"
      using 1(2,3) by (simp add: py_slice_nonneg)
    moreover have "py_range_up i (int (length xs)) step
        = i # py_range_up (i + step) (int (length xs)) step"
      using True 1(2) by (subst py_range_up.simps) simp
    ultimately show ?thesis
      by (simp del: drop_drop)
  next
    case False
    then show ?thesis
      using 1(3) by (subst py_range_up.simps) simp
  qed
qed

text \<open>
  C1.  For every list of files and every batch size \<open>B > 0\<close>, \<open>create_batches\<close> returns
  (it does not raise) exactly \<open>\<lceil>N / B\<rceil>\<close> batches, every batch has at most \<open>B\<close> files,
  and the batches concatenated in order are the input list.
\<close>

theorem create_batches_partition:
  assumes "0 < batch_size c"
  shows "\<exists>bs. create_batches c files = Inr bs
           \<and> int (length bs) = \<lceil>real (length files) / real_of_int (batch_size c)\<rceil>
           \<and> (\<forall>b \<in> set bs. int (length b) \<le> batch_size c)
           \<and> concat bs = files"
proof -
  define B where "B = batch_size c"
  have assms: "0 < B" using assms by (simp add: B_def)
  let ?bs = "map (\<lambda>i. py_slice files i (i + B)) (py_range_up 0 (int (length files)) B)"
  have ret: "create_batches c files = Inr ?bs"
    using assms by (simp add: create_batches_def py_range_def B_def)
  have "\<lceil>real (length files) / real_of_int B\<rceil> = - (- int (length files) div B)"
    using ceiling_divide_eq_div [of "int (length files)" B] by simp
  moreover have "0 \<le> - (- int (length files) div B)"
    using assms div_nonpos_pos_le0 [of "- int (length files)" B] by simp
  ultimately have len: "int (length ?bs) = \<lceil>real (length files) / real_of_int B\<rceil>"
    using py_range_up_length [OF assms, of 0 "int (length files)"] by simp
  have bound: "\<forall>b \<in> set ?bs. int (length b) \<le> B"
  proof
    fix b assume "b \<in> set ?bs"
    then obtain k where k: "k \<in> set (py_range_up 0 (int (length files)) B)"
      and b: "b = py_slice files k (k + B)" by auto
    have "0 \<le> k" using py_range_up_nonneg [OF _ k] by simp
    then show "int (length b) \<le> B"
      using assms b by (simp add: py_slice_nonneg)
  qed
  have "concat ?bs = files"
    using concat_slices [OF assms, of 0 files] by simp
  with ret len bound show ?thesis unfolding B_def by blast
qed

theorem create_batches_partition_witness:
  "0 < batch_size (config_ok\<lparr>batch_size := 2\<rparr>)
   \<and> (\<exists>bs. create_batches (config_ok\<lparr>batch_size := 2\<rparr>) [1, 2, 3, 4, 5 :: nat] = Inr bs
           \<and> int (length bs) = \<lceil>real (length [1, 2, 3, 4, 5 :: nat]) / real_of_int 2\<rceil>
           \<and> (\<forall>b \<in> set bs. int (length b) \<le> 2)
           \<and> concat bs = [1, 2, 3, 4, 5])"
  using create_batches_partition [of "config_ok\<lparr>batch_size := 2\<rparr>" "[1, 2, 3, 4, 5 :: nat]"]
  by simp

text \<open>
  C10.  The batch size is never validated.  Whatever integer \<open>BATCH_SIZE\<close> holds,
  configuration loading accepts it when it accepts the other settings (the accepted
  configuration differs in \<open>batch_size\<close> only), zero and negative values included.
  \<open>create_batches\<close> then raises \<open>ValueError\<close> for batch size 0, for every file list, and
  returns no batch at all for a negative batch size, for every file list.
\<close>

lemma missing_config_batch_size:
  "missing_config (c\<lparr>batch_size := b\<rparr>) = missing_config c"
  by (simp add: missing_config_def)

theorem batch_size_unvalidated:
  "(Ren3Config environ = Inr c \<and> py_int s = Inr b
      \<longrightarrow> Ren3Config (environ(''BATCH_SIZE'' \<mapsto> s)) = Inr (c\<lparr>batch_size := b\<rparr>))
   \<and> (batch_size c0 = 0 \<longrightarrow> create_batches c0 files = Inl ValueError)
   \<and> (batch_size c1 < 0 \<longrightarrow> create_batches c1 files = Inr [])"
proof (intro conjI impI)
  assume a: "Ren3Config environ = Inr c \<and> py_int s = Inr b"
  let ?e = "environ(''BATCH_SIZE'' \<mapsto> s)"
  have g: "getenv ?e ''BATCH_SIZE'' ''30'' = s"
    "getenv ?e ''POLL_INTERVAL'' ''15'' = getenv environ ''POLL_INTERVAL'' ''15''"
    "getenv ?e ''MAX_RETRIES'' ''3'' = getenv environ ''MAX_RETRIES'' ''3''"
    "getenv ?e ''REN3_API_URL'' ''https://backend.ren3.ai''
       = getenv environ ''REN3_API_URL'' ''https://backend.ren3.ai''"
    "?e ''REN3_USER_ID'' = environ ''REN3_USER_ID''"
    "?e ''REN3_WORKSPACE_ID'' = environ ''REN3_WORKSPACE_ID''"
    "?e ''REN3_AGENT_UUID'' = environ ''REN3_AGENT_UUID''"
    "?e ''REN3_AGENT_FOLDER'' = environ ''REN3_AGENT_FOLDER''"
    by (simp_all add: getenv_def)
  from a show "Ren3Config ?e = Inr (c\<lparr>batch_size := b\<rparr>)"
    unfolding Ren3Config_def g
    by (auto simp: Let_def missing_config_def split: sum.splits if_splits)
next
  assume "batch_size c0 = 0"
  then show "create_batches c0 files = Inl ValueError"
    by (simp add: create_batches_def py_range_def)
next
  assume "batch_size c1 < 0"
  then show "create_batches c1 files = Inr []"
    by (simp add: create_batches_def py_range_def py_range_down.simps)
qed

lemma py_int_examples:
  "py_int ''30'' = Inr 30" "py_int ''15'' = Inr 15" "py_int ''3'' = Inr 3"
  "py_int ''0'' = Inr 0" "py_int ''-5'' = Inr (- 5)"
  by (simp_all add: py_int_def strip_def is_space_def parse_nat_def is_digit_def digit_val_def
      max_str_digits_def)

lemma Ren3Config_environ_ok: "Ren3Config environ_ok = Inr config_ok"
  by (simp add: Ren3Config_def environ_ok_def config_ok_def getenv_def py_int_examples
      missing_config_def attr_missing_def Let_def)

theorem batch_size_unvalidated_witness:
  "Ren3Config environ_ok = Inr config_ok \<and> py_int ''-5'' = Inr (- 5)
   \<and> Ren3Config (environ_ok(''BATCH_SIZE'' \<mapsto> ''-5'')) = Inr (config_ok\<lparr>batch_size := - 5\<rparr>)
   \<and> batch_size (config_ok\<lparr>batch_size := 0\<rparr>) = 0
   \<and> create_batches (config_ok\<lparr>batch_size := 0\<rparr>) [''a.json'', ''b.json''] = Inl ValueError
   \<and> batch_size (config_ok\<lparr>batch_size := - 5\<rparr>) < 0
   \<and> create_batches (config_ok\<lparr>batch_size := - 5\<rparr>) [''a.json'', ''b.json''] = Inr []"
  using batch_size_unvalidated [of environ_ok config_ok "''-5''" "- 5"
      "config_ok\<lparr>batch_size := 0\<rparr>" "[''a.json'', ''b.json'']"
      "config_ok\<lparr>batch_size := - 5\<rparr>"]
  by (simp add: Ren3Config_environ_ok py_int_examples)

section \<open>Properties of file discovery\<close>

lemma append_le_append: "(d @ [a] \<le> d @ [b]) = (a \<le> (b::string))"
  by (induction d) auto

lemma listdir_child_name: "n \<in> set (listdir f d) \<Longrightarrow> path_name (d @ [n]) = n"
proof -
  assume "n \<in> set (listdir f d)"
  then obtain p where p: "p \<noteq> []" "p \<noteq> [''/'']" "butlast p = d" "last p = n"
    by (auto simp: listdir_def)
  from p(1) have "p = butlast p @ [last p]" by simp
  with p have "d @ [n] \<noteq> [''/'']" by metis
  then show ?thesis by (simp add: path_name_def)
qed

lemma scandir_Inr: "scandir f d = Inr names \<Longrightarrow> names = listdir f d \<and> is_dir f d = Inr True"
  by (auto simp: scandir_def is_dir_def is_directory_def
      split: sum.splits option.splits node.splits)

lemma glob_json_cases:
  assumes "glob_json f d = Inr found"
  shows "(found = [] \<and> (\<forall>names. scandir f d \<noteq> Inr names))
         \<or> (scandir f d = Inr (listdir f d)
            \<and> found = map (\<lambda>n. d @ [n]) (filter (suffix ''.json'') (listdir f d)))"
proof (cases "scandir f d")
  case (Inl err)
  then show ?thesis
    using assms by (auto simp: glob_json_def split: sum.splits bool.splits)
next
  case (Inr names)
  then have "names = listdir f d" "is_dir f d = Inr True"
    using scandir_Inr by auto
  then show ?thesis
    using assms Inr by (simp add: glob_json_def)
qed

lemma get_json_files_cases:
  assumes "get_json_files f d = Inr files"
  shows "(files = [] \<and> (\<forall>names. scandir f d \<noteq> Inr names))
         \<or> (scandir f d = Inr (listdir f d)
            \<and> files = sort (filter (\<lambda>file. \<not> prefix ''_'' (path_name file))
                  (map (\<lambda>n. d @ [n]) (filter (suffix ''.json'') (listdir f d)))))"
proof -
  from assms obtain found where found: "glob_json f d = Inr found"
    and files: "files = sort (filter (\<lambda>file. \<not> prefix ''_'' (path_name file)) found)"
    by (auto simp: get_json_files_def split: sum.splits)
  from glob_json_cases [OF found] files show ?thesis
    by auto
qed

lemma get_json_files_member:
  assumes "get_json_files f d = Inr files" "p \<in> set files"
  shows "\<exists>n. p = d @ [n] \<and> path_name p = n \<and> n \<in> set (listdir f d)
           \<and> suffix ''.json'' n \<and> \<not> prefix ''_'' n"
  using get_json_files_cases [OF assms(1)] assms(2) listdir_child_name [of _ f d]
  by auto

lemma eligible_paths:
  "set (filter (\<lambda>file. \<not> prefix ''_'' (path_name file))
          (map (\<lambda>n. d @ [n]) (filter (suffix ''.json'') (listdir f d))))
   = set (map (\<lambda>n. d @ [n])
            (filter (\<lambda>n. suffix ''.json'' n \<and> \<not> prefix ''_'' n) (listdir f d)))"
  using listdir_child_name [of _ f d] by auto

text \<open>
  C7, as the code has it.  Whatever the folder and the file system, a list that file
  discovery returns has no entry whose name starts with \<open>_\<close>, has only entries of the
  folder whose name ends in \<open>.json\<close>, has every such entry when the folder can be
  listed, and is sorted ascending, as a list of paths and as a list of names.  The code
  looks at the names only: what an entry is, a file or a directory, plays no part.
\<close>

theorem get_json_files_sorted_eligible:
  assumes "get_json_files f d = Inr files"
  shows "(\<forall>p \<in> set files. \<not> prefix ''_'' (path_name p) \<and> suffix ''.json'' (path_name p)
            \<and> p = d @ [path_name p] \<and> path_name p \<in> set (listdir f d))
         \<and> (scandir f d = Inr names
              \<longrightarrow> set files
                  = set (map (\<lambda>n. d @ [n])
                      (filter (\<lambda>n. suffix ''.json'' n \<and> \<not> prefix ''_'' n) names)))
         \<and> sorted files \<and> sorted (map path_name files)"
proof -
  have elig: "\<forall>p \<in> set files. \<not> prefix ''_'' (path_name p) \<and> suffix ''.json'' (path_name p)
      \<and> p = d @ [path_name p] \<and> path_name p \<in> set (listdir f d)"
    using get_json_files_member [OF assms] by metis
  have all: "scandir f d = Inr names
      \<longrightarrow> set files
          = set (map (\<lambda>n. d @ [n])
              (filter (\<lambda>n. suffix ''.json'' n \<and> \<not> prefix ''_'' n) names))"
  proof
    assume sc: "scandir f d = Inr names"
    then have names: "names = listdir f d"
      using scandir_Inr by auto
    from get_json_files_cases [OF assms] sc
    have "files = sort (filter (\<lambda>file. \<not> prefix ''_'' (path_name file))
        (map (\<lambda>n. d @ [n]) (filter (suffix ''.json'') (listdir f d))))"
      by auto
    then have "set files = set (filter (\<lambda>file. \<not> prefix ''_'' (path_name file))
        (map (\<lambda>n. d @ [n]) (filter (suffix ''.json'') (listdir f d))))"
      by simp
    then show "set files
        = set (map (\<lambda>n. d @ [n])
            (filter (\<lambda>n. suffix ''.json'' n \<and> \<not> prefix ''_'' n) names))"
      unfolding names eligible_paths .
  qed
  have srt: "sorted files"
    using get_json_files_cases [OF assms] by auto
  have "sorted_wrt (\<lambda>p q. path_name p \<le> path_name q) files"
  proof (rule sorted_wrt_mono_rel [OF _ srt])
    fix p q assume "p \<in> set files" "q \<in> set files" "p \<le> q"
    moreover from this obtain n m
      where "p = d @ [n]" "path_name p = n" "q = d @ [m]" "path_name q = m"
      using get_json_files_member [OF assms] by metis
    ultimately show "path_name p \<le> path_name q"
      by (simp add: append_le_append)
  qed
  then have "sorted (map path_name files)"
    by (simp add: sorted_map)
  with elig all srt show ?thesis by blast
qed

lemma get_json_files_example:
  "get_json_files fs_example [''promo''] = Inr [[''promo'', ''a.json''], [''promo'', ''b.json'']]"
  by code_simp

lemma scandir_example:
  "scandir fs_example [''promo''] = Inr [''b.json'', ''_meta.json'', ''notes.txt'', ''a.json'']"
  by code_simp

theorem get_json_files_sorted_eligible_witness:
  "get_json_files fs_example [''promo''] = Inr [[''promo'', ''a.json''], [''promo'', ''b.json'']]
   \<and> scandir fs_example [''promo''] = Inr [''b.json'', ''_meta.json'', ''notes.txt'', ''a.json'']
   \<and> list_all (\<lambda>p. \<not> prefix ''_'' (path_name p) \<and> suffix ''.json'' (path_name p)
                   \<and> p = [''promo''] @ [path_name p]
                   \<and> path_name p \<in> set (listdir fs_example [''promo'']))
         [[''promo'', ''a.json''], [''promo'', ''b.json'']]
   \<and> set [[''promo'', ''a.json''], [''promo'', ''b.json'']]
       = set (map (\<lambda>n. [''promo''] @ [n])
           (filter (\<lambda>n. suffix ''.json'' n \<and> \<not> prefix ''_'' n)
              [''b.json'', ''_meta.json'', ''notes.txt'', ''a.json'']))
   \<and> sorted [[''promo'', ''a.json''], [''promo'', ''b.json'']]
   \<and> sorted (map path_name [[''promo'', ''a.json''], [''promo'', ''b.json'']])"
proof -
  note t = get_json_files_sorted_eligible [OF get_json_files_example,
      of "[''b.json'', ''_meta.json'', ''notes.txt'', ''a.json'']"]
  from t have elig: "list_all (\<lambda>p. \<not> prefix ''_'' (path_name p) \<and> suffix ''.json'' (path_name p)
                   \<and> p = [''promo''] @ [path_name p]
                   \<and> path_name p \<in> set (listdir fs_example [''promo'']))
         [[''promo'', ''a.json''], [''promo'', ''b.json'']]"
    unfolding list_all_iff by (rule conjunct1)
  from t scandir_example
  have all: "set [[''promo'', ''a.json''], [''promo'', ''b.json'']]
       = set (map (\<lambda>n. [''promo''] @ [n])
           (filter (\<lambda>n. suffix ''.json'' n \<and> \<not> prefix ''_'' n)
              [''b.json'', ''_meta.json'', ''notes.txt'', ''a.json'']))"
    by (elim conjE impE) assumption+
  from t have srt: "sorted [[''promo'', ''a.json''], [''promo'', ''b.json'']]"
    by (elim conjE)
  from t have names: "sorted (map path_name [[''promo'', ''a.json''], [''promo'', ''b.json'']])"
    by (elim conjE)
  from elig all srt names get_json_files_example scandir_example show ?thesis
    by (intro conjI)
qed

text \<open>
  The claim as written fails: a directory whose name ends in \<open>.json\<close> is returned, and
  it is no JSON file.
\<close>

theorem get_json_files_directory_counterexample:
  "get_json_files fs_example [''odd''] = Inr [[''odd'', ''sub.json'']]
   \<and> fs_stat fs_example [''odd'', ''sub.json''] = Inr (Some Dir)"
  by code_simp

text \<open>
  File discovery can fail: what \<open>stat\<close> of the folder raises leaves it, as it leaves
  \<open>process_promo_folder\<close>, whose check of the folder stands outside the \<open>try\<close>.
\<close>

lemma get_json_files_raises:
  "fs_stat f d = Inl err \<Longrightarrow> get_json_files f d = Inl err"
  by (simp add: get_json_files_def glob_json_def is_dir_def)

lemma process_promo_folder_raises:
  "fs_stat (fs w) (Path s) = Inl err \<Longrightarrow> process_promo_folder e c s w = Some (Inl err, w)"
  by (simp add: process_promo_folder_def path_exists_def)

lemma locked_examples:
  "get_json_files fs_example [''vault'', ''promo''] = Inl PermissionError"
  "path_exists fs_example [''vault'', ''promo''] = Inl PermissionError"
  by code_simp+

text \<open>
  C6, as the code has it.  For a folder that is not there, file discovery returns the
  empty list: it raises nothing.  It returns the empty list as well for a folder that
  is there, is a directory and has no entry that is eligible (none at all, or none
  whose name ends in \<open>.json\<close> and does not start with \<open>_\<close>).  The missing folder is
  the caller's business: \<open>process_promo_folder\<close> asks \<open>exists\<close> before anything else
  and returns \<open>None\<close> for a folder that is not there, leaving the world as it was; it
  also returns \<open>None\<close> when discovery finds nothing.
\<close>

lemma get_json_files_missing:
  assumes "path_exists f d = Inr False"
  shows "get_json_files f d = Inr []"
proof -
  from assms have "fs_stat f d = Inr None"
    by (auto simp: path_exists_def split: sum.splits option.splits)
  then show ?thesis
    by (simp add: get_json_files_def glob_json_def is_dir_def)
qed

lemma get_json_files_no_eligible:
  assumes "is_dir f d = Inr True"
    and "\<forall>n \<in> set (listdir f d). \<not> suffix ''.json'' n \<or> prefix ''_'' n"
  shows "get_json_files f d = Inr []"
proof (cases "scandir f d")
  case (Inl err)
  then show ?thesis
    using assms(1) by (simp add: get_json_files_def glob_json_def)
next
  case (Inr names)
  then have names: "names = listdir f d"
    using scandir_Inr by auto
  have "\<forall>p \<in> set (map (\<lambda>n. d @ [n]) (filter (suffix ''.json'') (listdir f d))).
          prefix ''_'' (path_name p)"
    using assms(2) listdir_child_name [of _ f d] by auto
  then have "filter (\<lambda>file. \<not> prefix ''_'' (path_name file))
      (map (\<lambda>n. d @ [n]) (filter (suffix ''.json'') (listdir f d))) = []"
    unfolding filter_empty_conv by blast
  then show ?thesis
    using assms(1) Inr names by (simp add: get_json_files_def glob_json_def)
qed

theorem file_discovery_missing_or_empty:
  "(path_exists f d0 = Inr False \<longrightarrow> get_json_files f d0 = Inr [])
   \<and> (is_dir f d1 = Inr True
        \<and> (\<forall>n \<in> set (listdir f d1). \<not> suffix ''.json'' n \<or> prefix ''_'' n)
        \<longrightarrow> get_json_files f d1 = Inr [])
   \<and> (path_exists (fs w) (Path s0) = Inr False
        \<longrightarrow> process_promo_folder e c s0 w = Some (Inr None, w))
   \<and> (path_exists (fs w) (Path s1) = Inr True
        \<and> mkdir_parents (fs w) (path_join [''processed''] (path_name (Path s1))) = Inr f1
        \<and> get_json_files f1 (Path s1) = Inr []
        \<longrightarrow> process_promo_folder e c s1 w = Some (Inr None, w\<lparr>fs := f1\<rparr>))"
proof (intro conjI impI)
  assume "path_exists f d0 = Inr False"
  then show "get_json_files f d0 = Inr []"
    by (rule get_json_files_missing)
next
  assume "is_dir f d1 = Inr True
      \<and> (\<forall>n \<in> set (listdir f d1). \<not> suffix ''.json'' n \<or> prefix ''_'' n)"
  then show "get_json_files f d1 = Inr []"
    using get_json_files_no_eligible by blast
next
  assume "path_exists (fs w) (Path s0) = Inr False"
  then show "process_promo_folder e c s0 w = Some (Inr None, w)"
    by (simp add: process_promo_folder_def)
next
  assume "path_exists (fs w) (Path s1) = Inr True
        \<and> mkdir_parents (fs w) (path_join [''processed''] (path_name (Path s1))) = Inr f1
        \<and> get_json_files f1 (Path s1) = Inr []"
  then show "process_promo_folder e c s1 w = Some (Inr None, w\<lparr>fs := f1\<rparr>)"
    by (simp add: process_promo_folder_def)
qed

lemma Path_examples:
  "Path ''missing'' = [''missing'']" "Path ''skip'' = [''skip'']" "Path ''promo'' = [''promo'']"
  by (simp_all add: Path_def)

lemma mkdir_skip_example:
  "mkdir_parents fs_example [''processed'', ''skip'']
     = Inr (fs_example @ [([''processed''], Dir), ([''processed'', ''skip''], Dir)])"
  by code_simp

lemma discovery_examples:
  "path_exists fs_example [''missing''] = Inr False"
  "path_exists fs_example [''skip''] = Inr True"
  "is_dir fs_example [''skip''] = Inr True"
  "listdir fs_example [''skip''] = [''_meta.json'', ''notes.txt'']"
  "get_json_files (fs_example @ [([''processed''], Dir), ([''processed'', ''skip''], Dir)])
     [''skip''] = Inr []"
  by code_simp+

theorem file_discovery_missing_or_empty_witness:
  "path_exists fs_example [''missing''] = Inr False
   \<and> get_json_files fs_example [''missing''] = Inr []
   \<and> is_dir fs_example [''skip''] = Inr True
   \<and> listdir fs_example [''skip''] = [''_meta.json'', ''notes.txt'']
   \<and> get_json_files fs_example [''skip''] = Inr []
   \<and> process_promo_folder env_down config_ok ''missing'' world0 = Some (Inr None, world0)
   \<and> process_promo_folder env_down config_ok ''skip'' world0
       = Some (Inr None, world0\<lparr>fs := fs_example @ [([''processed''], Dir),
                                                       ([''processed'', ''skip''], Dir)]\<rparr>)"
  using file_discovery_missing_or_empty [of fs_example "[''missing'']" "[''skip'']" world0
      "''missing''" env_down config_ok "''skip''"
      "fs_example @ [([''processed''], Dir), ([''processed'', ''skip''], Dir)]"]
  by (simp add: discovery_examples Path_examples mkdir_skip_example world0_def path_name_def
      path_join_def suffix_def)

text \<open>
  The claim as written fails: for a folder that is not there, file discovery returns
  the empty list; it raises nothing.
\<close>

theorem file_discovery_missing_counterexample:
  "path_exists fs_example [''missing''] = Inr False
   \<and> get_json_files fs_example [''missing''] = Inr []"
  by code_simp

section \<open>Properties of the retry gateway\<close>

declare api_attempts.simps [simp del]

lemma requests_made_emit [simp]:
  "requests_made (emit (Sent rq) w) = Suc (requests_made w)"
  "requests_made (emit (Slept n) w) = requests_made w"
  by (simp_all add: requests_made_def emit_def)

lemma trace_emit [simp]: "trace (emit ev w) = trace w @ [ev]"
  by (simp add: emit_def)

lemma emit_emit:
  "emit ev2 (emit ev1 w) = w\<lparr>trace := trace w @ [ev1, ev2]\<rparr>"
  by (simp add: emit_def)

lemma py_sleep_ok:
  "0 \<le> secs \<Longrightarrow> secs \<le> longest_sleep e \<Longrightarrow> py_sleep e secs w = Inr (emit (Slept secs) w)"
  by (simp add: py_sleep_def longest_sleep_def)

lemma py_sleep_too_long:
  "0 \<le> secs \<Longrightarrow> longest_sleep e < secs
   \<Longrightarrow> py_sleep e secs w = Inl (if max_sleep < secs then OverflowError else OSError)"
  by (auto simp: py_sleep_def longest_sleep_def)


lemma api_attempts_succeeds:
  assumes "0 \<le> a" "a + int K < max_retries c"
    and "\<forall>k<K. net e (requests_made w + k) (attempt_request rq (a + int k)) = RaisedRequestException"
    and "net e (requests_made w + K) (attempt_request rq (a + int K)) = Returned j"
    and "5 * (a + int K) \<le> longest_sleep e"
  shows "api_attempts e c rq a w =
     (Inr j, w\<lparr>trace := trace w @ failed_attempts rq a K @ [Sent (attempt_request rq (a + int K))]\<rparr>)"
  using assms
proof (induction K arbitrary: a w)
  case 0
  then show ?case
    by (subst api_attempts.simps) (simp add: emit_def)
next
  case (Suc K)
  let ?w1 = "emit (Sent (attempt_request rq a)) w"
  let ?w2 = "emit (Slept (5 * (a + 1))) ?w1"
  have first: "net e (requests_made w) (attempt_request rq a) = RaisedRequestException"
    using Suc.prems(3) by (metis add.right_neutral add_0 of_nat_0 zero_less_Suc)
  have "0 \<le> a + 1" using Suc.prems(1) by simp
  moreover have "a + 1 + int K < max_retries c" using Suc.prems(2) by simp
  moreover have "\<forall>k<K. net e (requests_made ?w2 + k) (attempt_request rq (a + 1 + int k))
      = RaisedRequestException"
  proof (intro allI impI)
    fix k assume "k < K"
    then have "net e (requests_made w + Suc k) (attempt_request rq (a + int (Suc k)))
      = RaisedRequestException" using Suc.prems(3) by (metis Suc_less_eq)
    then show "net e (requests_made ?w2 + k) (attempt_request rq (a + 1 + int k))
      = RaisedRequestException" by (simp add: add.commute add.left_commute)
  qed
  moreover have "net e (requests_made ?w2 + K) (attempt_request rq (a + 1 + int K)) = Returned j"
    using Suc.prems(4) by (simp add: add.commute add.left_commute)
  moreover have "5 * (a + 1 + int K) \<le> longest_sleep e"
    using Suc.prems(5) by (simp add: algebra_simps)
  ultimately have ih: "api_attempts e c rq (a + 1) ?w2 =
     (Inr j, ?w2\<lparr>trace := trace ?w2 @ failed_attempts rq (a + 1) K
        @ [Sent (attempt_request rq (a + 1 + int K))]\<rparr>)"
    by (rule Suc.IH)
  have "5 * (a + 1) \<le> longest_sleep e" "0 \<le> 5 * (a + 1)"
    using Suc.prems(1,5) by simp_all
  then have sl: "py_sleep e (5 * (a + 1)) ?w1 = Inr ?w2"
    by (simp add: py_sleep_ok)
  have "a < max_retries c - 1" "a < max_retries c" using Suc.prems(2) by simp_all
  then have "api_attempts e c rq a w = api_attempts e c rq (a + 1) ?w2"
    using first sl by (subst api_attempts.simps) simp
  then show ?case
    using ih by (simp add: emit_def add.commute add.left_commute)
qed

lemma api_attempts_exhausted:
  assumes "0 \<le> a" "n = nat (max_retries c - a) - 1" "a < max_retries c"
    and "\<forall>k \<le> n. net e (requests_made w + k) (attempt_request rq (a + int k)) = RaisedRequestException"
    and "5 * (a + int n) \<le> longest_sleep e"
  shows "api_attempts e c rq a w =
     (Inl RequestException,
      w\<lparr>trace := trace w @ failed_attempts rq a n @ [Sent (attempt_request rq (a + int n))]\<rparr>)"
  using assms
proof (induction n arbitrary: a w)
  case 0
  then have "\<not> a < max_retries c - 1" by simp
  moreover have "net e (requests_made w) (attempt_request rq a) = RaisedRequestException"
    using 0(4) by simp
  ultimately show ?case
    using 0(3) by (subst api_attempts.simps) (simp add: emit_def)
next
  case (Suc n)
  let ?w1 = "emit (Sent (attempt_request rq a)) w"
  let ?w2 = "emit (Slept (5 * (a + 1))) ?w1"
  have first: "net e (requests_made w) (attempt_request rq a) = RaisedRequestException"
    using Suc.prems(4) by (metis add.right_neutral of_nat_0 le0)
  have lt: "a < max_retries c - 1" using Suc.prems(2) by simp
  have "0 \<le> a + 1" using Suc.prems(1) by simp
  moreover have "n = nat (max_retries c - (a + 1)) - 1" using Suc.prems(2) by simp
  moreover have "a + 1 < max_retries c" using lt by simp
  moreover have "\<forall>k\<le>n. net e (requests_made ?w2 + k) (attempt_request rq (a + 1 + int k))
      = RaisedRequestException"
  proof (intro allI impI)
    fix k assume "k \<le> n"
    then have "net e (requests_made w + Suc k) (attempt_request rq (a + int (Suc k)))
      = RaisedRequestException" using Suc.prems(4) by (metis Suc_le_mono)
    then show "net e (requests_made ?w2 + k) (attempt_request rq (a + 1 + int k))
      = RaisedRequestException" by (simp add: add.commute add.left_commute)
  qed
  moreover have "5 * (a + 1 + int n) \<le> longest_sleep e"
    using Suc.prems(5) by (simp add: algebra_simps)
  ultimately have ih: "api_attempts e c rq (a + 1) ?w2 =
     (Inl RequestException, ?w2\<lparr>trace := trace ?w2 @ failed_attempts rq (a + 1) n
        @ [Sent (attempt_request rq (a + 1 + int n))]\<rparr>)"
    by (rule Suc.IH)
  have "5 * (a + 1) \<le> longest_sleep e" "0 \<le> 5 * (a + 1)"
    using Suc.prems(1,5) by simp_all
  then have sl: "py_sleep e (5 * (a + 1)) ?w1 = Inr ?w2"
    by (simp add: py_sleep_ok)
  have "api_attempts e c rq a w = api_attempts e c rq (a + 1) ?w2"
    using first lt sl by (subst api_attempts.simps) simp
  then show ?case
    using ih by (simp add: emit_def add.commute add.left_commute)
qed

lemma api_attempts_sleep_raises:
  assumes "0 \<le> a" "a + int K + 1 < max_retries c"
    and "\<forall>k \<le> K. net e (requests_made w + k) (attempt_request rq (a + int k)) = RaisedRequestException"
    and "5 * (a + int K) \<le> longest_sleep e" "longest_sleep e < 5 * (a + int K + 1)"
  shows "api_attempts e c rq a w =
     (Inl (if max_sleep < 5 * (a + int K + 1) then OverflowError else OSError),
      w\<lparr>trace := trace w @ failed_attempts rq a K @ [Sent (attempt_request rq (a + int K))]\<rparr>)"
  using assms
proof (induction K arbitrary: a w)
  case 0
  let ?w1 = "emit (Sent (attempt_request rq a)) w"
  have first: "net e (requests_made w) (attempt_request rq a) = RaisedRequestException"
    using 0(3) by simp
  have "0 \<le> 5 * (a + 1)" "longest_sleep e < 5 * (a + 1)"
    using 0(1,5) by simp_all
  then have sl: "py_sleep e (5 * (a + 1)) ?w1
      = Inl (if max_sleep < 5 * (a + 1) then OverflowError else OSError)"
    by (rule py_sleep_too_long)
  have "a < max_retries c - 1" "a < max_retries c" using 0(2) by simp_all
  then show ?case
    using first sl by (subst api_attempts.simps) (auto simp: emit_def)
next
  case (Suc K)
  let ?w1 = "emit (Sent (attempt_request rq a)) w"
  let ?w2 = "emit (Slept (5 * (a + 1))) ?w1"
  have first: "net e (requests_made w) (attempt_request rq a) = RaisedRequestException"
    using Suc.prems(3) by (metis add.right_neutral of_nat_0 le0)
  have "0 \<le> a + 1" using Suc.prems(1) by simp
  moreover have "a + 1 + int K + 1 < max_retries c" using Suc.prems(2) by simp
  moreover have "\<forall>k\<le>K. net e (requests_made ?w2 + k) (attempt_request rq (a + 1 + int k))
      = RaisedRequestException"
  proof (intro allI impI)
    fix k assume "k \<le> K"
    then have "net e (requests_made w + Suc k) (attempt_request rq (a + int (Suc k)))
      = RaisedRequestException" using Suc.prems(3) by (metis Suc_le_mono)
    then show "net e (requests_made ?w2 + k) (attempt_request rq (a + 1 + int k))
      = RaisedRequestException" by (simp add: add.commute add.left_commute)
  qed
  moreover have "5 * (a + 1 + int K) \<le> longest_sleep e"
    using Suc.prems(4) by (simp add: algebra_simps)
  moreover have "longest_sleep e < 5 * (a + 1 + int K + 1)"
    using Suc.prems(5) by (simp add: algebra_simps)
  ultimately have ih: "api_attempts e c rq (a + 1) ?w2 =
     (Inl (if max_sleep < 5 * (a + 1 + int K + 1) then OverflowError else OSError),
      ?w2\<lparr>trace := trace ?w2 @ failed_attempts rq (a + 1) K
        @ [Sent (attempt_request rq (a + 1 + int K))]\<rparr>)"
    by (rule Suc.IH)
  have "5 * (a + 1) \<le> longest_sleep e" "0 \<le> 5 * (a + 1)"
    using Suc.prems(1,4) by simp_all
  then have sl: "py_sleep e (5 * (a + 1)) ?w1 = Inr ?w2"
    by (simp add: py_sleep_ok)
  have "a < max_retries c - 1" "a < max_retries c" using Suc.prems(2) by simp_all
  then have "api_attempts e c rq a w = api_attempts e c rq (a + 1) ?w2"
    using first sl by (subst api_attempts.simps) simp
  then show ?case
    using ih by (simp add: emit_def add.commute add.left_commute)
qed

lemma failed_attempts_count:
  "length (filter is_sent (failed_attempts rq a K)) = K"
  by (induction K arbitrary: a) simp_all

lemma failed_attempts_nth:
  "k < K \<Longrightarrow> failed_attempts rq a K ! (2 * k) = Sent (attempt_request rq (a + int k))
     \<and> failed_attempts rq a K ! (2 * k + 1) = Slept (5 * (a + int k + 1))"
proof (induction K arbitrary: a k)
  case 0 then show ?case by simp
next
  case (Suc K)
  show ?case
  proof (cases k)
    case 0 then show ?thesis by simp
  next
    case (Suc k')
    then have "k' < K" using Suc.prems by simp
    from Suc.IH [OF this, of "a + 1"] show ?thesis
      using Suc by (simp add: add.commute add.left_commute)
  qed
qed

text \<open>
  C2, as the code has it.  With \<open>M = max_retries\<close>, and as long as the longest wait
  is one that \<open>time.sleep\<close> takes: when the first \<open>K < M\<close> attempts end in a transport
  error and the next one succeeds, the call returns that response after exactly
  \<open>K + 1\<close> requests, and the trace is the \<open>K\<close> failed attempts, each followed by its
  sleep, then the last request; when \<open>M \<ge> 1\<close> and all \<open>M\<close> attempts end in a transport
  error, the call raises \<open>RequestException\<close> after exactly \<open>M\<close> requests (no sleep after
  the last); the \<open>k\<close>-th failed attempt (counted from 0) is followed by a sleep of
  \<open>5 * (k + 1)\<close> seconds; and when \<open>M \<le> 0\<close> the call sends nothing and returns \<open>None\<close>.
  When the wait after a failed attempt that is not the last is longer than
  \<open>time.sleep\<close> takes, which needs more than 1.8 billion failures in a row, the sleep
  raises in the handler and the call ends there, with \<open>OverflowError\<close> or \<open>OSError\<close>.
\<close>

theorem api_call_retry_policy:
  "(int K < max_retries c
      \<and> (\<forall>k<K. net e (requests_made w + k)
                  (attempt_request (api_request c endpoint data files method) (int k))
                = RaisedRequestException)
      \<and> net e (requests_made w + K)
            (attempt_request (api_request c endpoint data files method) (int K)) = Returned j
      \<and> 5 * int K \<le> longest_sleep e
    \<longrightarrow> (\<exists>w'. api_call e c endpoint data files method w = (Inr j, w')
           \<and> trace w' = trace w @ failed_attempts (api_request c endpoint data files method) 0 K
                 @ [Sent (attempt_request (api_request c endpoint data files method) (int K))]
           \<and> requests_made w' = requests_made w + K + 1))
   \<and> (0 < max_retries c2
      \<and> (\<forall>k < nat (max_retries c2). net e2 (requests_made w2 + k)
                  (attempt_request (api_request c2 endpoint data files method) (int k))
                = RaisedRequestException)
      \<and> 5 * (max_retries c2 - 1) \<le> longest_sleep e2
    \<longrightarrow> (\<exists>w'. api_call e2 c2 endpoint data files method w2 = (Inl RequestException, w')
           \<and> trace w' = trace w2
                 @ failed_attempts (api_request c2 endpoint data files method) 0
                     (nat (max_retries c2) - 1)
                 @ [Sent (attempt_request (api_request c2 endpoint data files method)
                            (max_retries c2 - 1))]
           \<and> requests_made w' = requests_made w2 + nat (max_retries c2)))
   \<and> (k < K' \<longrightarrow> failed_attempts rq 0 K' ! (2 * k) = Sent (attempt_request rq (int k))
                \<and> failed_attempts rq 0 K' ! (2 * k + 1) = Slept (5 * (int k + 1)))
   \<and> (max_retries c3 \<le> 0 \<longrightarrow> api_call e3 c3 endpoint data files method w3 = (Inr JNull, w3))
   \<and> (int K4 + 1 < max_retries c4
      \<and> (\<forall>k \<le> K4. net e4 (requests_made w4 + k)
                  (attempt_request (api_request c4 endpoint data files method) (int k))
                = RaisedRequestException)
      \<and> 5 * int K4 \<le> longest_sleep e4 \<and> longest_sleep e4 < 5 * (int K4 + 1)
    \<longrightarrow> (\<exists>w'. api_call e4 c4 endpoint data files method w4
                 = (Inl (if max_sleep < 5 * (int K4 + 1) then OverflowError else OSError), w')
           \<and> trace w' = trace w4
                 @ failed_attempts (api_request c4 endpoint data files method) 0 K4
                 @ [Sent (attempt_request (api_request c4 endpoint data files method) (int K4))]
           \<and> requests_made w' = requests_made w4 + K4 + 1))"
proof (intro conjI impI)
  let ?rq = "api_request c endpoint data files method"
  assume a: "int K < max_retries c
      \<and> (\<forall>k<K. net e (requests_made w + k) (attempt_request ?rq (int k)) = RaisedRequestException)
      \<and> net e (requests_made w + K) (attempt_request ?rq (int K)) = Returned j
      \<and> 5 * int K \<le> longest_sleep e"
  then have "api_attempts e c ?rq 0 w =
     (Inr j, w\<lparr>trace := trace w @ failed_attempts ?rq 0 K @ [Sent (attempt_request ?rq (0 + int K))]\<rparr>)"
    by (intro api_attempts_succeeds) simp_all
  then show "\<exists>w'. api_call e c endpoint data files method w = (Inr j, w')
           \<and> trace w' = trace w @ failed_attempts ?rq 0 K @ [Sent (attempt_request ?rq (int K))]
           \<and> requests_made w' = requests_made w + K + 1"
    by (simp add: api_call_def requests_made_def failed_attempts_count)
next
  let ?rq = "api_request c2 endpoint data files method"
  let ?n = "nat (max_retries c2) - 1"
  assume a: "0 < max_retries c2
      \<and> (\<forall>k < nat (max_retries c2). net e2 (requests_made w2 + k) (attempt_request ?rq (int k))
                = RaisedRequestException)
      \<and> 5 * (max_retries c2 - 1) \<le> longest_sleep e2"
  then have "\<forall>k \<le> ?n. net e2 (requests_made w2 + k) (attempt_request ?rq (0 + int k))
      = RaisedRequestException" by auto
  moreover have "?n = nat (max_retries c2 - 0) - 1" by simp
  moreover have "int ?n = max_retries c2 - 1" using a by linarith
  then have "5 * (0 + int ?n) \<le> longest_sleep e2" using a by simp
  ultimately have "api_attempts e2 c2 ?rq 0 w2 =
     (Inl RequestException,
      w2\<lparr>trace := trace w2 @ failed_attempts ?rq 0 ?n @ [Sent (attempt_request ?rq (0 + int ?n))]\<rparr>)"
    using a by (intro api_attempts_exhausted) simp_all
  moreover have "int ?n = max_retries c2 - 1" using a by linarith
  moreover have "Suc ?n = nat (max_retries c2)" using a by linarith
  ultimately show "\<exists>w'. api_call e2 c2 endpoint data files method w2 = (Inl RequestException, w')
           \<and> trace w' = trace w2 @ failed_attempts ?rq 0 ?n
                 @ [Sent (attempt_request ?rq (max_retries c2 - 1))]
           \<and> requests_made w' = requests_made w2 + nat (max_retries c2)"
    by (simp add: api_call_def requests_made_def failed_attempts_count)
next
  assume "k < K'"
  then show "failed_attempts rq 0 K' ! (2 * k) = Sent (attempt_request rq (int k))"
    and "failed_attempts rq 0 K' ! (2 * k + 1) = Slept (5 * (int k + 1))"
    using failed_attempts_nth [of k K' rq 0] by simp_all
next
  assume "max_retries c3 \<le> 0"
  then show "api_call e3 c3 endpoint data files method w3 = (Inr JNull, w3)"
    by (simp add: api_call_def api_attempts.simps)
next
  let ?rq = "api_request c4 endpoint data files method"
  assume a: "int K4 + 1 < max_retries c4
      \<and> (\<forall>k \<le> K4. net e4 (requests_made w4 + k) (attempt_request ?rq (int k))
                = RaisedRequestException)
      \<and> 5 * int K4 \<le> longest_sleep e4 \<and> longest_sleep e4 < 5 * (int K4 + 1)"
  then have "api_attempts e4 c4 ?rq 0 w4 =
     (Inl (if max_sleep < 5 * (0 + int K4 + 1) then OverflowError else OSError),
      w4\<lparr>trace := trace w4 @ failed_attempts ?rq 0 K4
         @ [Sent (attempt_request ?rq (0 + int K4))]\<rparr>)"
    by (intro api_attempts_sleep_raises) simp_all
  then show "\<exists>w'. api_call e4 c4 endpoint data files method w4
                 = (Inl (if max_sleep < 5 * (int K4 + 1) then OverflowError else OSError), w')
           \<and> trace w' = trace w4 @ failed_attempts ?rq 0 K4
                 @ [Sent (attempt_request ?rq (int K4))]
           \<and> requests_made w' = requests_made w4 + K4 + 1"
    by (simp add: api_call_def requests_made_def failed_attempts_count)
qed

lemma env_flaky_sel:
  "net env_flaky = (\<lambda>n rq. if n < 2 then RaisedRequestException
                              else Returned (JObj [(''success'', JBool True)]))"
  "filestream env_flaky
     = (\<lambda>n rq. if n < 1 then RaisedRequestException else Returned (''a,b'', None))"
  "net env_down = (\<lambda>n rq. RaisedRequestException)"
  "filestream env_down = (\<lambda>n rq. RaisedRequestException)"
  by (simp_all add: env_flaky_def env_down_def)

lemma longest_sleep_examples:
  "longest_sleep env_down = 9223351675" "longest_sleep env_flaky = 9223351675"
  by (simp_all add: longest_sleep_def max_sleep_def env_flaky_def env_down_def)

lemma world0_sel: "trace world0 = []" "fs world0 = fs_example" "requests_made world0 = 0"
  by (simp_all add: world0_def requests_made_def)

lemma config_ok_sel: "max_retries config_ok = 3" "poll_interval config_ok = 15"
  "batch_size config_ok = 30"
  by (simp_all add: config_ok_def)

theorem api_call_retry_policy_witness:
  "int 2 < max_retries config_ok
   \<and> net env_flaky (requests_made world0 + 0)
         (attempt_request (api_request config_ok ''/agentdrive/run_agent'' JNull [] ''POST'') (int 0))
        = RaisedRequestException
   \<and> net env_flaky (requests_made world0 + 1)
         (attempt_request (api_request config_ok ''/agentdrive/run_agent'' JNull [] ''POST'') (int 1))
        = RaisedRequestException
   \<and> net env_flaky (requests_made world0 + 2)
         (attempt_request (api_request config_ok ''/agentdrive/run_agent'' JNull [] ''POST'') (int 2))
        = Returned (JObj [(''success'', JBool True)])
   \<and> 5 * int 2 \<le> longest_sleep env_flaky
   \<and> (\<exists>w'. api_call env_flaky config_ok ''/agentdrive/run_agent'' JNull [] ''POST'' world0
               = (Inr (JObj [(''success'', JBool True)]), w')
          \<and> requests_made w' = 3)
   \<and> 0 < max_retries config_ok
   \<and> 5 * (max_retries config_ok - 1) \<le> longest_sleep env_down
   \<and> (\<forall>k. net env_down (requests_made world0 + k)
         (attempt_request (api_request config_ok ''/agentdrive/run_agent'' JNull [] ''POST'') (int k))
        = RaisedRequestException)
   \<and> (\<exists>w'. api_call env_down config_ok ''/agentdrive/run_agent'' JNull [] ''POST'' world0
               = (Inl RequestException, w')
          \<and> requests_made w' = 3)
   \<and> (1::nat) < 2
   \<and> failed_attempts (api_request config_ok ''/agentdrive/run_agent'' JNull [] ''POST'') 0 2 ! 3
        = Slept 10
   \<and> max_retries (config_ok\<lparr>max_retries := 0\<rparr>) \<le> 0
   \<and> api_call env_down (config_ok\<lparr>max_retries := 0\<rparr>) ''/agentdrive/run_agent'' JNull [] ''POST''
        world0 = (Inr JNull, world0)
   \<and> int 1844670335 + 1 < max_retries (config_ok\<lparr>max_retries := 2000000000\<rparr>)
   \<and> 5 * int 1844670335 \<le> longest_sleep env_down
   \<and> longest_sleep env_down < 5 * (int 1844670335 + 1)
   \<and> (\<exists>w'. api_call env_down (config_ok\<lparr>max_retries := 2000000000\<rparr>) ''/agentdrive/run_agent''
               JNull [] ''POST'' world0 = (Inl OSError, w')
          \<and> requests_made w' = 1844670336)"
proof -
  let ?rq = "api_request config_ok ''/agentdrive/run_agent'' JNull [] ''POST''"
  let ?c4 = "config_ok\<lparr>max_retries := 2000000000\<rparr>"
  have h1: "int 2 < max_retries config_ok
     \<and> (\<forall>k<2. net env_flaky (requests_made world0 + k) (attempt_request ?rq (int k))
           = RaisedRequestException)
     \<and> net env_flaky (requests_made world0 + 2) (attempt_request ?rq (int 2))
           = Returned (JObj [(''success'', JBool True)])
     \<and> 5 * int 2 \<le> longest_sleep env_flaky"
    by (simp add: env_flaky_sel world0_sel config_ok_sel longest_sleep_examples)
  have h2: "0 < max_retries config_ok
     \<and> (\<forall>k < nat (max_retries config_ok). net env_down (requests_made world0 + k)
           (attempt_request ?rq (int k)) = RaisedRequestException)
     \<and> 5 * (max_retries config_ok - 1) \<le> longest_sleep env_down"
    by (simp add: env_flaky_sel config_ok_sel longest_sleep_examples)
  have h3: "(1::nat) < 2" by simp
  have h4: "max_retries (config_ok\<lparr>max_retries := 0\<rparr>) \<le> 0" by simp
  have h5: "int 1844670335 + 1 < max_retries ?c4
     \<and> (\<forall>k \<le> 1844670335. net env_down (requests_made world0 + k)
           (attempt_request (api_request ?c4 ''/agentdrive/run_agent'' JNull [] ''POST'') (int k))
          = RaisedRequestException)
     \<and> 5 * int 1844670335 \<le> longest_sleep env_down
     \<and> longest_sleep env_down < 5 * (int 1844670335 + 1)"
    by (simp add: env_flaky_sel longest_sleep_examples)
  note t = api_call_retry_policy [of 2 config_ok env_flaky world0 "''/agentdrive/run_agent''"
      JNull "[]" "''POST''" "JObj [(''success'', JBool True)]" config_ok env_down world0 1 2
      ?rq "config_ok\<lparr>max_retries := 0\<rparr>" env_down world0 1844670335 ?c4 env_down world0]
  from t h1 have c1: "\<exists>w'. api_call env_flaky config_ok ''/agentdrive/run_agent'' JNull [] ''POST''
        world0 = (Inr (JObj [(''success'', JBool True)]), w') \<and> requests_made w' = 3"
    by (auto simp: world0_sel)
  from t h2 have c2: "\<exists>w'. api_call env_down config_ok ''/agentdrive/run_agent'' JNull [] ''POST''
        world0 = (Inl RequestException, w') \<and> requests_made w' = 3"
    by (auto simp: world0_sel config_ok_sel)
  from t h3 have c3: "failed_attempts ?rq 0 2 ! 3 = Slept 10"
    by simp
  from t h4 have c4: "api_call env_down (config_ok\<lparr>max_retries := 0\<rparr>) ''/agentdrive/run_agent''
        JNull [] ''POST'' world0 = (Inr JNull, world0)"
    by blast
  from t h5 have "\<exists>w'. api_call env_down ?c4 ''/agentdrive/run_agent'' JNull [] ''POST'' world0
        = (Inl (if max_sleep < 5 * (int 1844670335 + 1) then OverflowError else OSError), w')
      \<and> requests_made w' = requests_made world0 + 1844670335 + 1"
    by blast
  then have c5: "\<exists>w'. api_call env_down ?c4 ''/agentdrive/run_agent'' JNull [] ''POST'' world0
        = (Inl OSError, w') \<and> requests_made w' = 1844670336"
    by (simp add: world0_sel max_sleep_def)
  have h2': "\<forall>k. net env_down (requests_made world0 + k) (attempt_request ?rq (int k))
      = RaisedRequestException"
    by (simp add: env_flaky_sel)
  have h1': "net env_flaky (requests_made world0 + 0) (attempt_request ?rq (int 0))
      = RaisedRequestException"
    "net env_flaky (requests_made world0 + 1) (attempt_request ?rq (int 1))
      = RaisedRequestException"
    by (simp_all add: env_flaky_sel world0_sel)
  from h1 h1' h2 h2' h3 h4 h5 c1 c2 c3 c4 c5 show ?thesis by blast
qed

text \<open>
  The claim as written fails for \<open>max_retries = 0\<close>: the service is down, so every
  attempt would fail, yet the call raises nothing and returns \<open>None\<close>.  It fails as well
  for two billion retries: the service is down, and the call ends after 1844670336
  requests, not after two billion, because the wait of 9223351680 seconds is longer
  than the clock of this machine takes.
\<close>

lemma api_call_sleep_raises_example:
  "\<exists>w'. api_call env_down (config_ok\<lparr>max_retries := 2000000000\<rparr>) ''/agentdrive/run_agent''
          JNull [] ''POST'' world0 = (Inl OSError, w')
       \<and> requests_made w' = 1844670336"
proof -
  let ?c = "config_ok\<lparr>max_retries := 2000000000\<rparr>"
  let ?rq = "api_request ?c ''/agentdrive/run_agent'' JNull [] ''POST''"
  have "api_attempts env_down ?c ?rq 0 world0 =
     (Inl (if max_sleep < 5 * (0 + int 1844670335 + 1) then OverflowError else OSError),
      world0\<lparr>trace := trace world0 @ failed_attempts ?rq 0 1844670335
         @ [Sent (attempt_request ?rq (0 + int 1844670335))]\<rparr>)"
    by (intro api_attempts_sleep_raises) (simp_all add: env_flaky_sel longest_sleep_examples)
  then show ?thesis
    by (simp add: api_call_def requests_made_def failed_attempts_count world0_sel
        max_sleep_def)
qed

theorem api_call_zero_retries_counterexample:
  "max_retries (config_ok\<lparr>max_retries := 0\<rparr>) = 0
   \<and> net env_down 0 (api_request (config_ok\<lparr>max_retries := 0\<rparr>) ''/agentdrive/run_agent'' JNull [] ''POST'')
       = RaisedRequestException
   \<and> api_call env_down (config_ok\<lparr>max_retries := 0\<rparr>) ''/agentdrive/run_agent'' JNull [] ''POST''
        world0 = (Inr JNull, world0)
   \<and> fst (api_call env_down (config_ok\<lparr>max_retries := 2000000000\<rparr>) ''/agentdrive/run_agent''
            JNull [] ''POST'' world0) = Inl OSError
   \<and> requests_made (snd (api_call env_down (config_ok\<lparr>max_retries := 2000000000\<rparr>)
            ''/agentdrive/run_agent'' JNull [] ''POST'' world0)) = 1844670336"
  using api_call_sleep_raises_example
  by (auto simp: api_call_def api_attempts.simps env_flaky_sel)

section \<open>Which requests go through the gateway\<close>

lemma py_sleep_cases:
  "(\<exists>err. py_sleep e secs w = Inl err) \<or> py_sleep e secs w = Inr (emit (Slept secs) w)"
  by (simp add: py_sleep_def)

lemma poll_handler_trace:
  "\<exists>evs. trace (snd (poll_handler e c w)) = trace w @ evs \<and> filter is_sent evs = []"
  using py_sleep_cases [of e "poll_interval c" w]
  by (auto simp: poll_handler_def)

lemma poll_body_trace:
  "\<exists>evs. trace (snd (poll_body e c job_id w))
            = trace (snd (api_call e c ''/agentdrive/get_agentjoblogs'' (job_logs_data c job_id)
                           [] ''POST'' w)) @ evs
          \<and> filter is_sent evs = []"
proof -
  obtain r w1 where call: "api_call e c ''/agentdrive/get_agentjoblogs'' (job_logs_data c job_id)
      [] ''POST'' w = (r, w1)"
    by (cases "api_call e c ''/agentdrive/get_agentjoblogs'' (job_logs_data c job_id)
      [] ''POST'' w")
  have h: "\<exists>evs. trace (snd (poll_handler e c w1)) = trace w1 @ evs \<and> filter is_sent evs = []"
    by (rule poll_handler_trace)
  have "poll_body e c job_id w = poll_handler e c w1
      \<or> poll_body e c job_id w = (Completed, w1)
      \<or> poll_body e c job_id w = (Again, emit (Slept (poll_interval c)) w1)"
    using py_sleep_cases [of e "poll_interval c" w1]
    by (auto simp: poll_body_def call split: sum.splits bool.splits)
  then show ?thesis
    using h by (auto simp: call)
qed

text \<open>
  C3, as the code has it.  Uploading, verifying, starting the job, polling, fetching
  the job details and listing the output files change the world exactly as their one
  call of the gateway does (polling adds at most sleeps, \<open>upload_files\<close> and \<open>run_agent\<close>
  send nothing when they fail before the call); the gateway's requests have a timeout
  of 300 seconds with file parts and of 60 seconds without.  \<open>download_csv\<close> does not go
  through the gateway: it sends exactly one request, with a timeout of 120 seconds, and
  never sleeps; when that request ends in a transport error the error is raised at once.
\<close>

theorem requests_through_gateway_except_download:
  "snd (get_job_input_files e c temp w)
     = snd (api_call e c ''/agentdrive/get_jobinputfiles'' (input_files_data c temp) [] ''POST'' w)
   \<and> snd (run_agent e c input_files temp w)
       = (case py_len input_files of
            Inl err \<Rightarrow> w
          | Inr n \<Rightarrow>
              snd (api_call e c ''/agentdrive/run_agent'' (run_agent_data c input_files temp)
                     [] ''POST'' w))
   \<and> snd (get_job_details e c job_id w)
       = snd (api_call e c ''/agentdrive/get_jobdetails'' (job_details_data c job_id) [] ''POST'' w)
   \<and> snd (get_output_files e c folder w)
       = snd (api_call e c ''/tensordrive/get_docs'' (output_files_data c folder) [] ''POST'' w)
   \<and> snd (upload_files e c batch temp w)
       = (case open_all (fs w) batch of
            Inl err \<Rightarrow> w
          | Inr files \<Rightarrow>
              snd (api_call e c ''/upload_agenttmpfiles'' (upload_form e c temp) files ''POST'' w))
   \<and> (\<exists>evs. trace (snd (poll_body e c job_id w))
            = trace (snd (api_call e c ''/agentdrive/get_agentjoblogs'' (job_logs_data c job_id)
                           [] ''POST'' w)) @ evs
          \<and> filter is_sent evs = [])
   \<and> timeout (api_request c endpoint data files method) = (if files \<noteq> [] then 300 else 60)
   \<and> trace (snd (download_csv e c doc_uuid output_path w))
       = trace w @ [Sent (download_request c doc_uuid)]
   \<and> timeout (download_request c doc_uuid) = 120
   \<and> (filestream e (requests_made w) (download_request c doc_uuid) = RaisedRequestException
        \<longrightarrow> download_csv e c doc_uuid output_path w
            = (Inl RequestException, emit (Sent (download_request c doc_uuid)) w))"
proof (intro conjI impI)
  show "snd (get_job_input_files e c temp w)
     = snd (api_call e c ''/agentdrive/get_jobinputfiles'' (input_files_data c temp) [] ''POST'' w)"
    by (simp add: get_job_input_files_def split: prod.splits sum.splits)
  show "snd (run_agent e c input_files temp w)
       = (case py_len input_files of
            Inl err \<Rightarrow> w
          | Inr n \<Rightarrow>
              snd (api_call e c ''/agentdrive/run_agent'' (run_agent_data c input_files temp)
                     [] ''POST'' w))"
    by (simp add: run_agent_def split: prod.splits sum.splits)
  show "snd (get_job_details e c job_id w)
       = snd (api_call e c ''/agentdrive/get_jobdetails'' (job_details_data c job_id) [] ''POST'' w)"
    by (simp add: get_job_details_def split: prod.splits sum.splits)
  show "snd (get_output_files e c folder w)
       = snd (api_call e c ''/tensordrive/get_docs'' (output_files_data c folder) [] ''POST'' w)"
    by (simp add: get_output_files_def split: prod.splits sum.splits)
  show "snd (upload_files e c batch temp w)
       = (case open_all (fs w) batch of
            Inl err \<Rightarrow> w
          | Inr files \<Rightarrow>
              snd (api_call e c ''/upload_agenttmpfiles'' (upload_form e c temp) files ''POST'' w))"
    by (simp add: upload_files_def split: prod.splits sum.splits)
  show "\<exists>evs. trace (snd (poll_body e c job_id w))
            = trace (snd (api_call e c ''/agentdrive/get_agentjoblogs'' (job_logs_data c job_id)
                           [] ''POST'' w)) @ evs
          \<and> filter is_sent evs = []"
    by (rule poll_body_trace)
  show "timeout (api_request c endpoint data files method) = (if files \<noteq> [] then 300 else 60)"
    by (simp add: api_request_def)
  show "trace (snd (download_csv e c doc_uuid output_path w))
       = trace w @ [Sent (download_request c doc_uuid)]"
    by (simp add: download_csv_def split: attempt.splits sum.splits prod.splits option.splits)
  show "timeout (download_request c doc_uuid) = 120"
    by (simp add: download_request_def)
next
  assume "filestream e (requests_made w) (download_request c doc_uuid) = RaisedRequestException"
  then show "download_csv e c doc_uuid output_path w
            = (Inl RequestException, emit (Sent (download_request c doc_uuid)) w)"
    by (simp add: download_csv_def)
qed

theorem requests_through_gateway_except_download_witness:
  "filestream env_down (requests_made world0) (download_request config_ok (JStr ''doc''))
     = RaisedRequestException
   \<and> download_csv env_down config_ok (JStr ''doc'') [''processed'', ''batch_001.csv''] world0
       = (Inl RequestException, emit (Sent (download_request config_ok (JStr ''doc''))) world0)"
  using requests_through_gateway_except_download [of env_down config_ok _ world0 _ _ _ _ _
      _ _ _ "JStr ''doc''" "[''processed'', ''batch_001.csv'']"]
  by (simp add: env_flaky_sel)

text \<open>
  The claim as written fails: with \<open>max_retries = 3\<close> and a service whose first request
  fails and whose second would succeed, the download raises after its single request.
\<close>

theorem download_not_retried_counterexample:
  "max_retries config_ok = 3
   \<and> filestream env_flaky 0 (download_request config_ok (JStr ''doc'')) = RaisedRequestException
   \<and> filestream env_flaky 1 (download_request config_ok (JStr ''doc''))
       = Returned (''a,b'', None)
   \<and> download_csv env_flaky config_ok (JStr ''doc'') [''promo'', ''batch_001.csv''] world0
       = (Inl RequestException,
          world0\<lparr>trace := [Sent (download_request config_ok (JStr ''doc''))]\<rparr>)"
  by (simp add: download_csv_def env_flaky_sel world0_sel config_ok_sel emit_def)

section \<open>Properties of completion detection\<close>

lemma contains_iff_sublist: "contains pat t \<longleftrightarrow> sublist pat t"
  by (induction t) (auto simp: sublist_Cons_right)

lemma contains_completed_empty: "\<not> contains ''completed'' []"
  by simp

lemmas log_defs = log_completes_def log_text_lower_def dict_get_def dict_get_default_def
  text_lower_def

lemma readable_entry_log:
  assumes "readable_entry x"
  shows "log_completes x = Inr (completion_entry x)" and "\<exists>t. log_text_lower x = Inr t"
proof -
  from assms obtain kvs where x: "x = JObj kvs"
    by (cases x) (simp_all add: readable_entry_def)
  show "log_completes x = Inr (completion_entry x)"
  proof (cases "map_of kvs ''text''")
    case None
    with x show ?thesis by (simp add: log_defs completion_entry_def lower_def)
  next
    case (Some v)
    with assms x obtain t where "v = JStr t"
      by (cases v) (simp_all add: readable_entry_def)
    with Some x show ?thesis by (simp add: log_defs completion_entry_def)
  qed
  show "\<exists>t. log_text_lower x = Inr t"
    using assms x
    by (auto simp: log_defs readable_entry_def split: option.splits json.splits)
qed

lemma completion_entry_log:
  "completion_entry x \<Longrightarrow> log_completes x = Inr True"
  by (auto simp: log_defs completion_entry_def split: option.splits json.splits)

lemma log_completes_True:
  "log_completes x = Inr True \<Longrightarrow> completion_entry x"
  by (auto simp: log_defs completion_entry_def lower_def
      split: option.splits json.splits if_splits sum.splits)

lemma log_text_readable:
  "log_text_lower x = Inr t \<Longrightarrow> readable_entry x"
  by (auto simp: log_defs readable_entry_def split: option.splits json.splits sum.splits)

lemma scan_logs_Cons:
  "scan_logs (x # xs) = Inr True
     \<longleftrightarrow> completion_entry x \<or> (readable_entry x \<and> scan_logs xs = Inr True)"
proof
  assume a: "scan_logs (x # xs) = Inr True"
  show "completion_entry x \<or> (readable_entry x \<and> scan_logs xs = Inr True)"
  proof (cases "log_completes x")
    case (Inl err)
    with a show ?thesis by simp
  next
    case (Inr b)
    show ?thesis
    proof (cases b)
      case True
      with Inr have "log_completes x = Inr True" by simp
      then show ?thesis using log_completes_True by blast
    next
      case False
      with Inr a obtain t where "log_text_lower x = Inr t" "scan_logs xs = Inr True"
        by (auto split: sum.splits)
      then show ?thesis using log_text_readable by blast
    qed
  qed
next
  assume "completion_entry x \<or> (readable_entry x \<and> scan_logs xs = Inr True)"
  then show "scan_logs (x # xs) = Inr True"
  proof
    assume "completion_entry x"
    then show ?thesis by (simp add: completion_entry_log)
  next
    assume r: "readable_entry x \<and> scan_logs xs = Inr True"
    then obtain t where "log_text_lower x = Inr t" using readable_entry_log(2) by blast
    with r show ?thesis by (simp add: readable_entry_log(1) split: bool.splits)
  qed
qed

lemma scan_logs_completion_iff:
  "scan_logs entries = Inr True
     \<longleftrightarrow> (\<exists>pre c post. entries = pre @ c # post \<and> list_all readable_entry pre
                         \<and> completion_entry c)"
proof (induction entries)
  case Nil
  then show ?case by simp
next
  case (Cons x xs)
  show ?case
  proof
    assume "scan_logs (x # xs) = Inr True"
    then consider "completion_entry x" | "readable_entry x" "scan_logs xs = Inr True"
      using scan_logs_Cons by blast
    then show "\<exists>pre c post. x # xs = pre @ c # post \<and> list_all readable_entry pre
                         \<and> completion_entry c"
    proof cases
      case 1
      then have "x # xs = [] @ x # xs \<and> list_all readable_entry [] \<and> completion_entry x"
        by simp
      then show ?thesis by blast
    next
      case 2
      then obtain pre c post where "xs = pre @ c # post" "list_all readable_entry pre"
        "completion_entry c" using Cons.IH by blast
      with 2 have "x # xs = (x # pre) @ c # post \<and> list_all readable_entry (x # pre)
          \<and> completion_entry c" by simp
      then show ?thesis by blast
    qed
  next
    assume "\<exists>pre c post. x # xs = pre @ c # post \<and> list_all readable_entry pre
                         \<and> completion_entry c"
    then obtain pre c post where d: "x # xs = pre @ c # post" "list_all readable_entry pre"
        "completion_entry c" by blast
    show "scan_logs (x # xs) = Inr True"
    proof (cases pre)
      case Nil
      with d have "completion_entry x" by simp
      then show ?thesis using scan_logs_Cons by blast
    next
      case (Cons y ys)
      with d have "x = y" "xs = ys @ c # post" "readable_entry x" "list_all readable_entry ys"
        by simp_all
      then have "scan_logs xs = Inr True" using Cons.IH d(3) by blast
      then show ?thesis using \<open>readable_entry x\<close> scan_logs_Cons by blast
    qed
  qed
qed

lemma scan_logs_readable:
  "list_all readable_entry entries \<Longrightarrow> scan_logs entries = Inr (list_ex completion_entry entries)"
proof (induction entries)
  case Nil
  then show ?case by simp
next
  case (Cons x xs)
  then have r: "readable_entry x" and ih: "scan_logs xs = Inr (list_ex completion_entry xs)"
    by simp_all
  from r obtain t where "log_text_lower x = Inr t" using readable_entry_log(2) by blast
  with r ih show ?case
    by (simp add: readable_entry_log(1) split: bool.splits)
qed

lemma poll_try_logs:
  "poll_try (JObj [(''success'', JBool True), (''returnObject'', JList entries)]) = scan_logs entries"
  by (simp add: poll_try_def dict_get_def dict_get_default_def truthy_opt_def py_iter_def)


text \<open>
  C4, as the code has it.  The scan of a log list signals completion if and only if the
  list contains a completion entry and every entry before it is readable (the scan
  lowers the text of every entry it passes, and raises on an entry that is no object or
  whose text is no string).  For a list of readable entries the scan never raises and
  signals completion exactly when the list contains a completion entry.  The log list
  of a successful response is scanned as it is.  The entry
  \<open>{type: 2, text: "Job completed successfully"}\<close> signals completion, the list with only
  \<open>{type: 1, text: "progress 10%"}\<close> does not.
\<close>

theorem completion_detection:
  "(scan_logs entries = Inr True
      \<longleftrightarrow> (\<exists>pre c post. entries = pre @ c # post \<and> list_all readable_entry pre
                          \<and> completion_entry c))
   \<and> (list_all readable_entry entries2
        \<longrightarrow> scan_logs entries2 = Inr (list_ex completion_entry entries2))
   \<and> poll_try (JObj [(''success'', JBool True), (''returnObject'', JList entries)])
       = scan_logs entries
   \<and> scan_logs [JObj [(''type'', JInt 2), (''text'', JStr ''Job completed successfully'')]]
       = Inr True
   \<and> scan_logs [JObj [(''type'', JInt 1), (''text'', JStr ''progress 10%'')]] = Inr False"
proof (intro conjI impI)
  show "scan_logs entries = Inr True
      \<longleftrightarrow> (\<exists>pre c post. entries = pre @ c # post \<and> list_all readable_entry pre
                          \<and> completion_entry c)"
    by (rule scan_logs_completion_iff)
  show "poll_try (JObj [(''success'', JBool True), (''returnObject'', JList entries)])
       = scan_logs entries"
    by (rule poll_try_logs)
  show "scan_logs [JObj [(''type'', JInt 2), (''text'', JStr ''Job completed successfully'')]]
       = Inr True"
    by code_simp
  show "scan_logs [JObj [(''type'', JInt 1), (''text'', JStr ''progress 10%'')]] = Inr False"
    by code_simp
next
  assume "list_all readable_entry entries2"
  then show "scan_logs entries2 = Inr (list_ex completion_entry entries2)"
    by (rule scan_logs_readable)
qed

lemma readable_example:
  "list_all readable_entry
     [JObj [(''type'', JInt 1), (''text'', JStr ''progress 10%'')],
      JObj [(''type'', JInt 2), (''text'', JStr ''JOB COMPLETED'')]]"
  by (simp add: readable_entry_def)

lemma completion_example:
  "list_ex completion_entry
     [JObj [(''type'', JInt 1), (''text'', JStr ''progress 10%'')],
      JObj [(''type'', JInt 2), (''text'', JStr ''JOB COMPLETED'')]]"
  by code_simp

theorem completion_detection_witness:
  "list_all readable_entry
     [JObj [(''type'', JInt 1), (''text'', JStr ''progress 10%'')],
      JObj [(''type'', JInt 2), (''text'', JStr ''JOB COMPLETED'')]]
   \<and> scan_logs
       [JObj [(''type'', JInt 1), (''text'', JStr ''progress 10%'')],
        JObj [(''type'', JInt 2), (''text'', JStr ''JOB COMPLETED'')]] = Inr True"
  using completion_detection [of _
      "[JObj [(''type'', JInt 1), (''text'', JStr ''progress 10%'')],
        JObj [(''type'', JInt 2), (''text'', JStr ''JOB COMPLETED'')]]"]
    readable_example completion_example
  by simp

text \<open>
  The claim as written fails: the second entry of this list is a completion entry, but
  the first one has a \<open>null\<close> text, on which the scan raises; no completion is
  signalled (the polling loop swallows the exception and polls again).
\<close>

theorem completion_detection_counterexample:
  "completion_entry (JObj [(''type'', JInt 2), (''text'', JStr ''Job completed successfully'')])
   \<and> scan_logs
       [JObj [(''type'', JInt 1), (''text'', JNull)],
        JObj [(''type'', JInt 2), (''text'', JStr ''Job completed successfully'')]]
       = Inl AttributeError"
  by code_simp

section \<open>Properties of polling\<close>

























section \<open>Properties of merging\<close>

lemma combine_loop_foldl:
  "combine_loop e f csv_files df0 = foldl df_concat df0 (readable_frames e f csv_files)"
  by (induction csv_files arbitrary: df0) (simp_all split: sum.splits)

lemma rows_foldl_concat:
  "rows (foldl df_concat df0 ds) = rows df0 @ concat (map rows ds)"
  by (induction ds arbitrary: df0) (simp_all add: df_concat_def)

lemma columns_foldl_concat:
  "set (columns (foldl df_concat df0 ds)) = set (columns df0) \<union> \<Union> (set ` columns ` set ds)"
  by (induction ds arbitrary: df0) (auto simp: df_concat_def)

lemma fs_write_writable:
  "writable f p \<Longrightarrow> fs_write f p nd = Inr (AList.update p nd f)"
  by (auto simp: fs_write_def writable_def split: option.splits)

lemma fs_lookup_update:
  "writable f p \<Longrightarrow> fs_lookup (AList.update p nd f) p = Some nd"
  by (simp add: fs_lookup_def writable_def update_conv')

text \<open>
  C9, as the code has it.  For every list of downloaded files, when the output path can
  be written and \<open>to_excel\<close> takes the combined table: \<open>combine_csvs\<close> raises nothing
  and returns the output path; the spreadsheet is written there; its rows are the rows
  of the readable files, in the order of the files, and its columns are those of the
  readable files.  When no file is readable, the empty table is written.  A file whose
  reading raises does not count among the readable files, a file that is read does.
  What \<open>to_excel\<close> raises leaves \<open>combine_csvs\<close>: when it refuses the table nothing is
  written, when it breaks while writing the spreadsheet holds what was written until
  then, and when the path cannot be written nothing is written.
\<close>

theorem combine_csvs_skips_unreadable:
  "(writable (fs w) output_path
      \<and> to_excel e (combine_loop e (fs w) csv_files empty_df) = Written
      \<longrightarrow> (\<exists>df. combine_csvs e csv_files output_path w
                  = (Inr output_path, w\<lparr>fs := AList.update output_path (Sheet df) (fs w)\<rparr>)
             \<and> fs_lookup (AList.update output_path (Sheet df) (fs w)) output_path = Some (Sheet df)
             \<and> rows df = concat (map rows (readable_frames e (fs w) csv_files))
             \<and> set (columns df) = \<Union> (set ` columns ` set (readable_frames e (fs w) csv_files))))
   \<and> (writable (fs w2) output_path2 \<and> readable_frames e2 (fs w2) csv_files2 = []
        \<and> to_excel e2 empty_df = Written
      \<longrightarrow> combine_csvs e2 csv_files2 output_path2 w2
            = (Inr output_path2,
               w2\<lparr>fs := AList.update output_path2 (Sheet empty_df) (fs w2)\<rparr>))
   \<and> (pd_read_csv e3 f3 csv_file = Inl err
      \<longrightarrow> readable_frames e3 f3 (csv_file # rest) = readable_frames e3 f3 rest)
   \<and> (pd_read_csv e4 f4 csv_file4 = Inr df4
      \<longrightarrow> readable_frames e4 f4 (csv_file4 # rest4) = df4 # readable_frames e4 f4 rest4)
   \<and> (to_excel e5 (combine_loop e5 (fs w5) csv_files5 empty_df) = Refused err5
      \<longrightarrow> combine_csvs e5 csv_files5 output_path5 w5 = (Inl err5, w5))
   \<and> (writable (fs w6) output_path6
        \<and> to_excel e6 (combine_loop e6 (fs w6) csv_files6 empty_df) = Broke err6 written
      \<longrightarrow> combine_csvs e6 csv_files6 output_path6 w6
            = (Inl err6, w6\<lparr>fs := AList.update output_path6 (Sheet written) (fs w6)\<rparr>))
   \<and> (to_excel e7 (combine_loop e7 (fs w7) csv_files7 empty_df) = Written
        \<and> fs_write (fs w7) output_path7 (Sheet (combine_loop e7 (fs w7) csv_files7 empty_df))
            = Inl err7
      \<longrightarrow> combine_csvs e7 csv_files7 output_path7 w7 = (Inl err7, w7))"
proof (intro conjI impI)
  assume a: "writable (fs w) output_path
      \<and> to_excel e (combine_loop e (fs w) csv_files empty_df) = Written"
  then have wr: "writable (fs w) output_path" by simp
  let ?df = "combine_loop e (fs w) csv_files empty_df"
  have "combine_csvs e csv_files output_path w
      = (Inr output_path, w\<lparr>fs := AList.update output_path (Sheet ?df) (fs w)\<rparr>)"
    using a by (simp add: combine_csvs_def fs_write_writable [OF wr])
  moreover have "fs_lookup (AList.update output_path (Sheet ?df) (fs w)) output_path
      = Some (Sheet ?df)"
    by (rule fs_lookup_update [OF wr])
  moreover have "rows ?df = concat (map rows (readable_frames e (fs w) csv_files))"
    by (simp add: combine_loop_foldl rows_foldl_concat empty_df_def)
  moreover have "set (columns ?df)
      = \<Union> (set ` columns ` set (readable_frames e (fs w) csv_files))"
    by (simp add: combine_loop_foldl columns_foldl_concat empty_df_def)
  ultimately show "\<exists>df. combine_csvs e csv_files output_path w
                  = (Inr output_path, w\<lparr>fs := AList.update output_path (Sheet df) (fs w)\<rparr>)
             \<and> fs_lookup (AList.update output_path (Sheet df) (fs w)) output_path = Some (Sheet df)
             \<and> rows df = concat (map rows (readable_frames e (fs w) csv_files))
             \<and> set (columns df) = \<Union> (set ` columns ` set (readable_frames e (fs w) csv_files))"
    by blast
next
  assume "writable (fs w2) output_path2 \<and> readable_frames e2 (fs w2) csv_files2 = []
        \<and> to_excel e2 empty_df = Written"
  then show "combine_csvs e2 csv_files2 output_path2 w2
            = (Inr output_path2,
               w2\<lparr>fs := AList.update output_path2 (Sheet empty_df) (fs w2)\<rparr>)"
    by (simp add: combine_csvs_def fs_write_writable combine_loop_foldl)
next
  assume "pd_read_csv e3 f3 csv_file = Inl err"
  then show "readable_frames e3 f3 (csv_file # rest) = readable_frames e3 f3 rest"
    by simp
next
  assume "pd_read_csv e4 f4 csv_file4 = Inr df4"
  then show "readable_frames e4 f4 (csv_file4 # rest4) = df4 # readable_frames e4 f4 rest4"
    by simp
next
  assume "to_excel e5 (combine_loop e5 (fs w5) csv_files5 empty_df) = Refused err5"
  then show "combine_csvs e5 csv_files5 output_path5 w5 = (Inl err5, w5)"
    by (simp add: combine_csvs_def)
next
  assume "writable (fs w6) output_path6
        \<and> to_excel e6 (combine_loop e6 (fs w6) csv_files6 empty_df) = Broke err6 written"
  then show "combine_csvs e6 csv_files6 output_path6 w6
            = (Inl err6, w6\<lparr>fs := AList.update output_path6 (Sheet written) (fs w6)\<rparr>)"
    by (simp add: combine_csvs_def fs_write_writable)
next
  assume "to_excel e7 (combine_loop e7 (fs w7) csv_files7 empty_df) = Written
        \<and> fs_write (fs w7) output_path7 (Sheet (combine_loop e7 (fs w7) csv_files7 empty_df))
            = Inl err7"
  then show "combine_csvs e7 csv_files7 output_path7 w7 = (Inl err7, w7)"
    by (simp add: combine_csvs_def)
qed

lemma fs_csv_stat:
  "fs_stat fs_csv [''processed'', ''promo'', ''batch_001.csv'']
     = Inr (Some (File (''name,price'' @ [CHR 0x0A] @ ''A,1'' @ [CHR 0x0A])))"
  "fs_stat fs_csv [''processed'', ''promo'', ''batch_002.csv''] = Inr (Some (File ''''))"
  "fs_stat fs_csv [''processed'', ''promo'', ''batch_003.csv'']
     = Inr (Some (File (''name,price'' @ [CHR 0x0A] @ ''B,2'' @ [CHR 0x0A] @ ''C,3''
                        @ [CHR 0x0A])))"
  "fs_stat fs_csv [''processed'', ''promo'', ''batch_004.csv'']
     = Inr (Some (File (''name,price'' @ [CHR 0x0A] @ ''D,4'' @ [CHR 0x0A]
                        @ ''E'' @ [CHR 0x01] @ '',5'' @ [CHR 0x0A])))"
  "fs_stat fs_csv [''processed'', ''promo'', ''batch_005.csv''] = Inr None"
  "fs_stat fs_csv [''processed'', ''promo''] = Inr (Some Dir)"
  "fs_lookup fs_csv [''processed'', ''promo'', ''final.xlsx''] = None"
  by (simp_all add: fs_stat_def fs_lookup_def fs_csv_def)

lemma env_down_libs: "read_csv env_down = plain_csv" "to_excel env_down = plain_excel"
  by (simp_all add: env_down_def)

lemma csv_examples:
  "pd_read_csv env_down fs_csv [''processed'', ''promo'', ''batch_001.csv'']
     = Inr \<lparr> columns = [''name'', ''price''],
             rows = [[(''name'', ''A''), (''price'', ''1'')]] \<rparr>"
  "pd_read_csv env_down fs_csv [''processed'', ''promo'', ''batch_002.csv''] = Inl ValueError"
  "pd_read_csv env_down fs_csv [''processed'', ''promo'', ''batch_003.csv'']
     = Inr \<lparr> columns = [''name'', ''price''],
             rows = [[(''name'', ''B''), (''price'', ''2'')],
                     [(''name'', ''C''), (''price'', ''3'')]] \<rparr>"
  "pd_read_csv env_down fs_csv [''processed'', ''promo'', ''batch_004.csv'']
     = Inr \<lparr> columns = [''name'', ''price''],
             rows = [[(''name'', ''D''), (''price'', ''4'')],
                     [(''name'', ''E'' @ [CHR 0x01]), (''price'', ''5'')]] \<rparr>"
  "pd_read_csv env_down fs_csv [''processed'', ''promo'', ''batch_005.csv''] = Inl OSError"
  "writable fs_csv [''processed'', ''promo'', ''final.xlsx'']"
  by (simp_all add: pd_read_csv_def fs_read_def fs_csv_stat env_down_libs plain_csv_def
      csv_lines_def csv_cells_def writable_def)

lemma excel_examples:
  "to_excel env_down (combine_loop env_down fs_csv
      [[''processed'', ''promo'', ''batch_001.csv''],
       [''processed'', ''promo'', ''batch_002.csv''],
       [''processed'', ''promo'', ''batch_003.csv'']] empty_df) = Written"
  "to_excel env_down empty_df = Written"
  "to_excel env_down (combine_loop env_down fs_csv
      [[''processed'', ''promo'', ''batch_001.csv''],
       [''processed'', ''promo'', ''batch_004.csv'']] empty_df)
     = Broke IllegalCharacterError
         \<lparr> columns = [''name'', ''price''],
           rows = [[(''name'', ''A''), (''price'', ''1'')],
                   [(''name'', ''D''), (''price'', ''4'')]] \<rparr>"
  by (simp_all add: csv_examples env_down_libs plain_excel_def df_concat_def empty_df_def
      legal_row_def legal_char_def)

theorem combine_csvs_skips_unreadable_witness:
  "writable (fs (world0\<lparr>fs := fs_csv\<rparr>)) [''processed'', ''promo'', ''final.xlsx'']
   \<and> to_excel env_down (combine_loop env_down (fs (world0\<lparr>fs := fs_csv\<rparr>))
        [[''processed'', ''promo'', ''batch_001.csv''],
         [''processed'', ''promo'', ''batch_002.csv''],
         [''processed'', ''promo'', ''batch_003.csv'']] empty_df) = Written
   \<and> (\<exists>df. combine_csvs env_down
               [[''processed'', ''promo'', ''batch_001.csv''],
                [''processed'', ''promo'', ''batch_002.csv''],
                [''processed'', ''promo'', ''batch_003.csv'']]
               [''processed'', ''promo'', ''final.xlsx''] (world0\<lparr>fs := fs_csv\<rparr>)
             = (Inr [''processed'', ''promo'', ''final.xlsx''],
                world0\<lparr>fs := AList.update [''processed'', ''promo'', ''final.xlsx'']
                                (Sheet df) fs_csv\<rparr>)
          \<and> rows df = [[(''name'', ''A''), (''price'', ''1'')],
                       [(''name'', ''B''), (''price'', ''2'')],
                       [(''name'', ''C''), (''price'', ''3'')]])
   \<and> readable_frames env_down fs_csv
        [[''processed'', ''promo'', ''batch_002.csv''],
         [''processed'', ''promo'', ''batch_005.csv'']] = []
   \<and> to_excel env_down empty_df = Written
   \<and> combine_csvs env_down
        [[''processed'', ''promo'', ''batch_002.csv''],
         [''processed'', ''promo'', ''batch_005.csv'']]
        [''processed'', ''promo'', ''final.xlsx''] (world0\<lparr>fs := fs_csv\<rparr>)
       = (Inr [''processed'', ''promo'', ''final.xlsx''],
          world0\<lparr>fs := AList.update [''processed'', ''promo'', ''final.xlsx'']
                          (Sheet empty_df) fs_csv\<rparr>)
   \<and> pd_read_csv env_down fs_csv [''processed'', ''promo'', ''batch_002.csv''] = Inl ValueError
   \<and> pd_read_csv env_down fs_csv [''processed'', ''promo'', ''batch_001.csv'']
       = Inr \<lparr> columns = [''name'', ''price''],
               rows = [[(''name'', ''A''), (''price'', ''1'')]] \<rparr>
   \<and> to_excel env_down (combine_loop env_down (fs (world0\<lparr>fs := fs_csv\<rparr>))
        [[''processed'', ''promo'', ''batch_001.csv''],
         [''processed'', ''promo'', ''batch_004.csv'']] empty_df)
       = Broke IllegalCharacterError
           \<lparr> columns = [''name'', ''price''],
             rows = [[(''name'', ''A''), (''price'', ''1'')],
                     [(''name'', ''D''), (''price'', ''4'')]] \<rparr>
   \<and> combine_csvs env_down
        [[''processed'', ''promo'', ''batch_001.csv''],
         [''processed'', ''promo'', ''batch_004.csv'']]
        [''processed'', ''promo'', ''final.xlsx''] (world0\<lparr>fs := fs_csv\<rparr>)
       = (Inl IllegalCharacterError,
          world0\<lparr>fs := AList.update [''processed'', ''promo'', ''final.xlsx'']
             (Sheet \<lparr> columns = [''name'', ''price''],
                      rows = [[(''name'', ''A''), (''price'', ''1'')],
                              [(''name'', ''D''), (''price'', ''4'')]] \<rparr>) fs_csv\<rparr>)"
proof -
  let ?w = "world0\<lparr>fs := fs_csv\<rparr>"
  let ?out = "[''processed'', ''promo'', ''final.xlsx'']"
  let ?three = "[[''processed'', ''promo'', ''batch_001.csv''],
        [''processed'', ''promo'', ''batch_002.csv''],
        [''processed'', ''promo'', ''batch_003.csv'']]"
  let ?none = "[[''processed'', ''promo'', ''batch_002.csv''],
        [''processed'', ''promo'', ''batch_005.csv'']]"
  let ?bad = "[[''processed'', ''promo'', ''batch_001.csv''],
        [''processed'', ''promo'', ''batch_004.csv'']]"
  let ?part = "\<lparr> columns = [''name'', ''price''],
           rows = [[(''name'', ''A''), (''price'', ''1'')],
                   [(''name'', ''D''), (''price'', ''4'')]] \<rparr>"
  have fsw: "fs ?w = fs_csv" by simp
  have h1: "writable (fs ?w) ?out \<and> to_excel env_down (combine_loop env_down (fs ?w) ?three empty_df)
      = Written"
    unfolding fsw by (intro conjI csv_examples(6) excel_examples(1))
  have rf: "readable_frames env_down fs_csv ?none = []"
    by (simp add: csv_examples)
  have h2: "writable (fs ?w) ?out \<and> readable_frames env_down (fs ?w) ?none = []
      \<and> to_excel env_down empty_df = Written"
    unfolding fsw by (intro conjI csv_examples(6) rf excel_examples(2))
  have h3: "pd_read_csv env_down fs_csv [''processed'', ''promo'', ''batch_002.csv'']
      = Inl ValueError"
    by (rule csv_examples)
  have h4: "pd_read_csv env_down fs_csv [''processed'', ''promo'', ''batch_001.csv'']
       = Inr \<lparr> columns = [''name'', ''price''],
               rows = [[(''name'', ''A''), (''price'', ''1'')]] \<rparr>"
    by (rule csv_examples)
  have h6: "writable (fs ?w) ?out
      \<and> to_excel env_down (combine_loop env_down (fs ?w) ?bad empty_df)
          = Broke IllegalCharacterError ?part"
    unfolding fsw by (intro conjI csv_examples(6) excel_examples(3))
  note t = combine_csvs_skips_unreadable [of ?w ?out env_down ?three
      ?w ?out env_down ?none
      env_down fs_csv "[''processed'', ''promo'', ''batch_002.csv'']" ValueError "[]"
      env_down fs_csv "[''processed'', ''promo'', ''batch_001.csv'']"
      "\<lparr> columns = [''name'', ''price''], rows = [[(''name'', ''A''), (''price'', ''1'')]] \<rparr>" "[]"
      env_down ?w ?three _ _
      ?w ?out env_down ?bad IllegalCharacterError ?part]
  from t h1 obtain df where df: "combine_csvs env_down ?three ?out ?w
      = (Inr ?out, ?w\<lparr>fs := AList.update ?out (Sheet df) (fs ?w)\<rparr>)"
    "rows df = concat (map rows (readable_frames env_down (fs ?w) ?three))"
    by blast
  have "concat (map rows (readable_frames env_down (fs ?w) ?three))
      = [[(''name'', ''A''), (''price'', ''1'')],
         [(''name'', ''B''), (''price'', ''2'')],
         [(''name'', ''C''), (''price'', ''3'')]]"
    unfolding fsw by (simp add: csv_examples)
  with df have c1: "\<exists>df. combine_csvs env_down ?three ?out ?w
             = (Inr ?out, world0\<lparr>fs := AList.update ?out (Sheet df) fs_csv\<rparr>)
          \<and> rows df = [[(''name'', ''A''), (''price'', ''1'')],
                       [(''name'', ''B''), (''price'', ''2'')],
                       [(''name'', ''C''), (''price'', ''3'')]]"
    by (intro exI [of _ df]) simp
  from t h2 have "combine_csvs env_down ?none ?out ?w
       = (Inr ?out, ?w\<lparr>fs := AList.update ?out (Sheet empty_df) (fs ?w)\<rparr>)"
    by blast
  then have c2: "combine_csvs env_down ?none ?out ?w
       = (Inr ?out, world0\<lparr>fs := AList.update ?out (Sheet empty_df) fs_csv\<rparr>)"
    by simp
  from t h6 have "combine_csvs env_down ?bad ?out ?w
       = (Inl IllegalCharacterError, ?w\<lparr>fs := AList.update ?out (Sheet ?part) (fs ?w)\<rparr>)"
    by blast
  then have c6: "combine_csvs env_down ?bad ?out ?w
       = (Inl IllegalCharacterError, world0\<lparr>fs := AList.update ?out (Sheet ?part) fs_csv\<rparr>)"
    by simp
  from h1 h2 h3 h4 h6 c1 c2 c6 rf show ?thesis
    by (intro conjI) (simp_all only: simp_thms)
qed

text \<open>
  The claim as written fails: the two files are read, both are readable, yet the
  spreadsheet does not hold the rows of both and an error is raised, because a cell of
  the second file has a control character, which a sheet cannot hold.
\<close>

lemma combine_csvs_raises_example:
  "combine_csvs env_down
        [[''processed'', ''promo'', ''batch_001.csv''],
         [''processed'', ''promo'', ''batch_004.csv'']]
        [''processed'', ''promo'', ''final.xlsx''] (world0\<lparr>fs := fs_csv\<rparr>)
     = (Inl IllegalCharacterError,
        world0\<lparr>fs := AList.update [''processed'', ''promo'', ''final.xlsx'']
           (Sheet \<lparr> columns = [''name'', ''price''],
                    rows = [[(''name'', ''A''), (''price'', ''1'')],
                            [(''name'', ''D''), (''price'', ''4'')]] \<rparr>) fs_csv\<rparr>)"
proof -
  have fsw: "fs (world0\<lparr>fs := fs_csv\<rparr>) = fs_csv" by simp
  show ?thesis
    unfolding combine_csvs_def fsw excel_examples(3)
    by (simp add: fs_write_writable csv_examples(6))
qed

theorem combine_csvs_raises_counterexample:
  "readable_frames env_down fs_csv
       [[''processed'', ''promo'', ''batch_001.csv''],
        [''processed'', ''promo'', ''batch_004.csv'']]
     = [\<lparr> columns = [''name'', ''price''],
          rows = [[(''name'', ''A''), (''price'', ''1'')]] \<rparr>,
        \<lparr> columns = [''name'', ''price''],
          rows = [[(''name'', ''D''), (''price'', ''4'')],
                  [(''name'', ''E'' @ [CHR 0x01]), (''price'', ''5'')]] \<rparr>]
   \<and> writable fs_csv [''processed'', ''promo'', ''final.xlsx'']
   \<and> fst (combine_csvs env_down
        [[''processed'', ''promo'', ''batch_001.csv''],
         [''processed'', ''promo'', ''batch_004.csv'']]
        [''processed'', ''promo'', ''final.xlsx''] (world0\<lparr>fs := fs_csv\<rparr>))
       = Inl IllegalCharacterError
   \<and> fs_lookup (fs (snd (combine_csvs env_down
        [[''processed'', ''promo'', ''batch_001.csv''],
         [''processed'', ''promo'', ''batch_004.csv'']]
        [''processed'', ''promo'', ''final.xlsx''] (world0\<lparr>fs := fs_csv\<rparr>))))
        [''processed'', ''promo'', ''final.xlsx'']
       = Some (Sheet \<lparr> columns = [''name'', ''price''],
                       rows = [[(''name'', ''A''), (''price'', ''1'')],
                               [(''name'', ''D''), (''price'', ''4'')]] \<rparr>)"
  using combine_csvs_raises_example
  by (simp add: csv_examples fs_lookup_update)

end
